theory Spec2Isabelle
  imports Main "HOL-Library.Multiset" "HOL-Library.Product_Lexorder"
begin

section \<open>Data model\<close>

text \<open>
  Strings that come from the video's title or from the client are lists of UTF-16 code
  units, as the regular expressions and the header check of the runtime see them. The
  fixed texts of the source and the provider's labels are plain strings.
\<close>

type_synonym ustring = "nat list"

definition ustr :: "string \<Rightarrow> ustring" where
  "ustr s = map of_char s"

text \<open>
  A raw rendition is one entry of \<open>info.formats\<close> as the metadata provider returns it.
  Optional properties of the JavaScript object are \<open>option\<close> values (\<open>None\<close> is
  \<open>undefined\<close>). \<open>contentLength\<close> is a decimal string in the source; the model keeps the
  number it denotes, and \<open>None\<close> stands for an absent or empty string (both falsy).
  Bitrates and lengths are non-negative quantities, so they are natural numbers.
\<close>

record RawRendition =
  itag :: nat
  mimeType :: "string option"
  qualityLabel :: "string option"
  quality :: string
  bitrate :: "nat option"
  audioBitrate :: "nat option"
  container :: string
  hasVideo :: bool
  hasAudio :: bool
  contentLength :: "nat option"

text \<open>
  An entry of the catalog, as \<open>allFormats.set(key, {...})\<close> builds it in the analyze
  route. The pre-muxed and the audio-only entries carry \<open>itag\<close>; the split entries carry
  \<open>videoItag\<close> and \<open>audioItag\<close>. A property the object literal does not have is
  \<open>None\<close>. The fields \<open>optQuality\<close>, \<open>optItag\<close>, \<open>optMimeType\<close>, \<open>optHasAudio\<close> and
  \<open>optHasVideo\<close> are the source's \<open>quality\<close>, \<open>itag\<close>, \<open>mimeType\<close>, \<open>hasAudio\<close>
  and \<open>hasVideo\<close> of the option object. The download route receives such an object
  back from the client and copies its \<open>format\<close> into a response header, so this field
  is a list of code units.
\<close>

record RenditionOption =
  optQuality :: string
  format :: ustring
  filesize :: string
  optItag :: "nat option"
  videoItag :: "nat option"
  audioItag :: "nat option"
  optMimeType :: "string option"
  optHasAudio :: bool
  optHasVideo :: bool
  isHighQuality :: bool
  resolution :: nat

section \<open>Helpers of the JavaScript runtime\<close>

text \<open>Truthiness of an optional string: defined and not empty.\<close>

definition truthy :: "string option \<Rightarrow> bool" where
  "truthy s = (case s of None \<Rightarrow> False | Some t \<Rightarrow> t \<noteq> [])"

definition isDigit :: "char \<Rightarrow> bool" where
  "isDigit c = (c \<in> set ''0123456789'')"

definition digitVal :: "char \<Rightarrow> nat" where
  "digitVal c = of_char c - 48"

text \<open>\<open>Number.parseInt(s, 10)\<close> on a non-empty string of decimal digits.\<close>

definition parseDigits :: "string \<Rightarrow> nat" where
  "parseDigits ds = foldl (\<lambda>a c. 10 * a + digitVal c) 0 ds"

definition digitChar :: "nat \<Rightarrow> char" where
  "digitChar n = ''0123456789'' ! n"

text \<open>Decimal rendering of a number inside a template literal.\<close>

function showNat :: "nat \<Rightarrow> string" where
  "showNat n = (if n < 10 then [digitChar n] else showNat (n div 10) @ [digitChar (n mod 10)])"
  by pat_completeness auto
termination
  by (relation "measure id") auto

declare showNat.simps [simp del]

text \<open>
  \<open>Math.round(Number.parseInt(contentLength) / (1024 * 1024))\<close>: the division by a power
  of two is exact in double precision for every length below \<open>2 ^ 53\<close>, and
  \<open>Math.round\<close> rounds halves upwards.
\<close>

definition roundMB :: "nat \<Rightarrow> nat" where
  "roundMB n = (n + 524288) div 1048576"

section \<open>Size estimator\<close>

text \<open>
  \<open>extractResolution\<close>: the first match of \<open>/(\d+)p/\<close>. Scanning from the left, the
  regular expression matches at the first maximal run of digits that is followed by
  \<open>p\<close>; the accumulator holds the digits of the run being read. No match is 0.
\<close>

fun scanResolution :: "string \<Rightarrow> string \<Rightarrow> nat" where
  "scanResolution acc [] = 0"
| "scanResolution acc (c # cs) =
     (if isDigit c then scanResolution (acc @ [c]) cs
      else if c = CHR ''p'' \<and> acc \<noteq> [] then parseDigits acc
      else scanResolution [] cs)"

definition extractResolution :: "string \<Rightarrow> nat" where
  "extractResolution label = scanResolution [] label"

text \<open>The table \<open>estimates\<close> of \<open>estimateVideoSize\<close>.\<close>

definition estimates :: "(nat \<times> nat) list" where
  "estimates = [(144, 2), (240, 4), (360, 8), (480, 15), (720, 25), (1080, 50),
                (1440, 80), (2160, 150)]"

definition estimateVideoSize :: "nat \<Rightarrow> nat" where
  "estimateVideoSize r =
     (case map_of estimates r of None \<Rightarrow> 10 | Some v \<Rightarrow> (if v = 0 then 10 else v))"

definition estimateFileSize :: "nat \<Rightarrow> bool \<Rightarrow> string" where
  "estimateFileSize r isHQ =
     (let videoSize = estimateVideoSize r;
          audioSize = 3;
          totalSize = (if isHQ then videoSize + audioSize else videoSize)
      in ''~'' @ showNat totalSize @ '' MB'')"

section \<open>Rendition catalog builder\<close>

text \<open>
  \<open>allFormats\<close> is a JavaScript \<open>Map\<close>: it iterates in insertion order, and \<open>set\<close> on a
  key that is present replaces the value where it stands. The model is an association
  list in insertion order.
\<close>

type_synonym catalog = "(string \<times> RenditionOption) list"

definition mapHas :: "catalog \<Rightarrow> string \<Rightarrow> bool" where
  "mapHas m k = (map_of m k \<noteq> None)"

fun mapSet :: "catalog \<Rightarrow> string \<Rightarrow> RenditionOption \<Rightarrow> catalog" where
  "mapSet [] k v = [(k, v)]"
| "mapSet ((k', v') # m) k v = (if k' = k then (k, v) # m else (k', v') # mapSet m k v)"

definition mapValues :: "catalog \<Rightarrow> RenditionOption list" where
  "mapValues m = map snd m"

subsection \<open>Pre-muxed pass\<close>

definition isCombined :: "RawRendition \<Rightarrow> bool" where
  "isCombined f = (hasVideo f \<and> hasAudio f \<and> truthy (qualityLabel f))"

text \<open>\<open>format.qualityLabel || format.quality || "Unknown"\<close>\<close>

definition combinedQuality :: "RawRendition \<Rightarrow> string" where
  "combinedQuality f =
     (case qualityLabel f of
        Some q \<Rightarrow> (if q \<noteq> [] then q else if quality f \<noteq> [] then quality f else ''Unknown'')
      | None \<Rightarrow> (if quality f \<noteq> [] then quality f else ''Unknown''))"

definition combinedOption :: "RawRendition \<Rightarrow> RenditionOption" where
  "combinedOption f =
     (let q = combinedQuality f; r = extractResolution q in
      \<lparr> optQuality = q,
        format = ustr (if container f \<noteq> [] then container f else ''mp4''),
        filesize = (case contentLength f of
                      Some n \<Rightarrow> ''~'' @ showNat (roundMB n) @ '' MB''
                    | None \<Rightarrow> estimateFileSize r False),
        optItag = Some (itag f),
        videoItag = None,
        audioItag = None,
        optMimeType = mimeType f,
        optHasAudio = True,
        optHasVideo = True,
        isHighQuality = False,
        resolution = r \<rparr>)"

definition addCombined :: "catalog \<Rightarrow> RawRendition \<Rightarrow> catalog" where
  "addCombined m f =
     (let key = combinedQuality f @ ''_combined'' in
      if \<not> mapHas m key then mapSet m key (combinedOption f) else m)"

definition combinedPass :: "RawRendition list \<Rightarrow> catalog" where
  "combinedPass fs = foldl addCombined [] (filter isCombined fs)"

subsection \<open>Split-stream candidates and the best audio rendition\<close>

definition isVideoOnly :: "RawRendition \<Rightarrow> bool" where
  "isVideoOnly f =
     (hasVideo f \<and> \<not> hasAudio f \<and> container f = ''mp4'' \<and> truthy (qualityLabel f))"

text \<open>
  The callback of \<open>reduce\<close>. \<open>format.bitrate && format.bitrate > existing.bitrate\<close>: an
  undefined or zero \<open>format.bitrate\<close> is falsy, and a comparison with an undefined
  \<open>existing.bitrate\<close> is a comparison with \<open>NaN\<close>, which is false.
\<close>

definition bitrateGreater :: "nat option \<Rightarrow> nat option \<Rightarrow> bool" where
  "bitrateGreater b e =
     (case b of None \<Rightarrow> False
      | Some x \<Rightarrow> x \<noteq> 0 \<and> (case e of None \<Rightarrow> False | Some y \<Rightarrow> y < x))"

definition reduceStep :: "RawRendition list \<Rightarrow> RawRendition \<Rightarrow> RawRendition list" where
  "reduceStep acc f =
     (let q = qualityLabel f in
      case find (\<lambda>g. qualityLabel g = q) acc of
        None \<Rightarrow> filter (\<lambda>g. qualityLabel g \<noteq> q) acc @ [f]
      | Some existing \<Rightarrow>
          if bitrateGreater (bitrate f) (bitrate existing)
          then filter (\<lambda>g. qualityLabel g \<noteq> q) acc @ [f]
          else acc)"

definition videoOnlyFormats :: "RawRendition list \<Rightarrow> RawRendition list" where
  "videoOnlyFormats fs = foldl reduceStep [] (filter isVideoOnly fs)"

text \<open>
  \<open>Array.prototype.sort\<close> is stable, and with a comparator that is a total preorder
  its result is the one stable sorted arrangement. The model is the stable insertion
  sort: an element goes before the first element it does not compare greater than.
\<close>

fun insertBy :: "('a \<Rightarrow> 'a \<Rightarrow> int) \<Rightarrow> 'a \<Rightarrow> 'a list \<Rightarrow> 'a list" where
  "insertBy cmp x [] = [x]"
| "insertBy cmp x (y # ys) = (if cmp x y \<le> 0 then x # y # ys else y # insertBy cmp x ys)"

definition sortBy :: "('a \<Rightarrow> 'a \<Rightarrow> int) \<Rightarrow> 'a list \<Rightarrow> 'a list" where
  "sortBy cmp xs = foldr (insertBy cmp) xs []"

text \<open>\<open>audioBitrate || 0\<close>\<close>

definition audioRate :: "RawRendition \<Rightarrow> nat" where
  "audioRate f = (case audioBitrate f of None \<Rightarrow> 0 | Some b \<Rightarrow> b)"

definition audioCompare :: "RawRendition \<Rightarrow> RawRendition \<Rightarrow> int" where
  "audioCompare a b = int (audioRate b) - int (audioRate a)"

definition isAudioOnly :: "RawRendition \<Rightarrow> bool" where
  "isAudioOnly f = (\<not> hasVideo f \<and> hasAudio f)"

text \<open>Element 0 of the sorted array; \<open>None\<close> is \<open>undefined\<close> (the array is empty).\<close>

definition bestAudioFormat :: "RawRendition list \<Rightarrow> RawRendition option" where
  "bestAudioFormat fs =
     (case sortBy audioCompare (filter isAudioOnly fs) of [] \<Rightarrow> None | a # _ \<Rightarrow> Some a)"

subsection \<open>Split-stream options and the audio-only option\<close>

text \<open>
  \<open>videoFormat.qualityLabel\<close> of a candidate. Every candidate passed the filter, so its
  label is defined; the template literal would render an undefined one as \<open>undefined\<close>.
\<close>

definition labelOf :: "RawRendition \<Rightarrow> string" where
  "labelOf v = (case qualityLabel v of Some q \<Rightarrow> q | None \<Rightarrow> ''undefined'')"

definition videoSizeMB :: "RawRendition \<Rightarrow> nat \<Rightarrow> nat" where
  "videoSizeMB v r = (case contentLength v of Some n \<Rightarrow> roundMB n | None \<Rightarrow> estimateVideoSize r)"

definition audioSizeMB :: "RawRendition \<Rightarrow> nat" where
  "audioSizeMB a = (case contentLength a of Some n \<Rightarrow> roundMB n | None \<Rightarrow> 3)"

definition highOption :: "RawRendition \<Rightarrow> RawRendition \<Rightarrow> RenditionOption" where
  "highOption a v =
     (let q = labelOf v;
          r = extractResolution q;
          hq = (1080 \<le> r);
          estimatedVideoSize = videoSizeMB v r;
          estimatedAudioSize = audioSizeMB a in
      \<lparr> optQuality = (if hq then q @ '' (High Quality)'' else q),
        format = ustr ''mp4'',
        filesize = ''~'' @ showNat (estimatedVideoSize + estimatedAudioSize) @ '' MB'',
        optItag = None,
        videoItag = Some (itag v),
        audioItag = Some (itag a),
        optMimeType = mimeType v,
        optHasAudio = True,
        optHasVideo = True,
        isHighQuality = hq,
        resolution = r \<rparr>)"

definition addHigh :: "RawRendition \<Rightarrow> catalog \<Rightarrow> RawRendition \<Rightarrow> catalog" where
  "addHigh a m v =
     (let key = labelOf v @ ''_high'' in
      if \<not> mapHas m key then mapSet m key (highOption a v) else m)"

definition audioOption :: "RawRendition \<Rightarrow> RenditionOption" where
  "audioOption a =
     \<lparr> optQuality = ''Audio Only'',
       format = ustr ''mp3'',
       filesize = (case contentLength a of
                     Some n \<Rightarrow> ''~'' @ showNat (roundMB n) @ '' MB''
                   | None \<Rightarrow> ''~3 MB''),
       optItag = Some (itag a),
       videoItag = None,
       audioItag = None,
       optMimeType = mimeType a,
       optHasAudio = True,
       optHasVideo = False,
       isHighQuality = False,
       resolution = 0 \<rparr>"

definition highPass :: "RawRendition list \<Rightarrow> catalog \<Rightarrow> catalog" where
  "highPass fs m =
     (case bestAudioFormat fs of
        None \<Rightarrow> m
      | Some a \<Rightarrow> foldl (addHigh a) m (videoOnlyFormats fs))"

definition audioPass :: "RawRendition list \<Rightarrow> catalog \<Rightarrow> catalog" where
  "audioPass fs m =
     (case bestAudioFormat fs of
        None \<Rightarrow> m
      | Some a \<Rightarrow> mapSet m ''audio_only'' (audioOption a))"

definition allFormats :: "RawRendition list \<Rightarrow> catalog" where
  "allFormats fs = audioPass fs (highPass fs (combinedPass fs))"

subsection \<open>Ranking\<close>

text \<open>The comparator of the final sort, branch for branch.\<close>

definition compareFormats :: "RenditionOption \<Rightarrow> RenditionOption \<Rightarrow> int" where
  "compareFormats a b =
     (if optQuality a = ''Audio Only'' \<and> optQuality b \<noteq> ''Audio Only'' then 1
      else if optQuality a \<noteq> ''Audio Only'' \<and> optQuality b = ''Audio Only'' then - 1
      else if resolution a \<noteq> resolution b then int (resolution b) - int (resolution a)
      else if isHighQuality a \<and> \<not> isHighQuality b then - 1
      else if \<not> isHighQuality a \<and> isHighQuality b then 1
      else 0)"

definition formats :: "RawRendition list \<Rightarrow> RenditionOption list" where
  "formats fs = sortBy compareFormats (mapValues (allFormats fs))"

section \<open>Error mapping of the two routes\<close>

text \<open>What a \<open>catch\<close> block receives: an \<open>Error\<close> with its message, or any other value.\<close>

datatype thrown = Error string | NonError

fun isPrefixOf :: "string \<Rightarrow> string \<Rightarrow> bool" where
  "isPrefixOf [] s = True"
| "isPrefixOf (p # ps) [] = False"
| "isPrefixOf (p # ps) (c # cs) = (p = c \<and> isPrefixOf ps cs)"

text \<open>\<open>String.prototype.includes\<close>\<close>

fun includesStr :: "string \<Rightarrow> string \<Rightarrow> bool" where
  "includesStr [] sub = (sub = [])"
| "includesStr (c # cs) sub = (isPrefixOf sub (c # cs) \<or> includesStr cs sub)"

text \<open>A JSON error response: the status and the \<open>error\<close> text.\<close>

record errorBody =
  status :: nat
  message :: string

text \<open>The \<open>catch\<close> block of the analyze route.\<close>

definition analyzeCatch :: "thrown \<Rightarrow> errorBody" where
  "analyzeCatch e =
     (case e of
        Error msg \<Rightarrow>
          if includesStr msg ''Video unavailable''
          then \<lparr> status = 404, message = ''Video is unavailable or private'' \<rparr>
          else if includesStr msg ''age-restricted''
          then \<lparr> status = 403, message = ''Video is age-restricted'' \<rparr>
          else \<lparr> status = 500,
                 message = ''Failed to analyze video. Please check the URL and try again.'' \<rparr>
      | NonError \<Rightarrow>
          \<lparr> status = 500,
            message = ''Failed to analyze video. Please check the URL and try again.'' \<rparr>)"

text \<open>The \<open>catch\<close> block of the download route.\<close>

definition downloadCatch :: "thrown \<Rightarrow> errorBody" where
  "downloadCatch e =
     (case e of
        Error msg \<Rightarrow>
          if includesStr msg ''Video unavailable''
          then \<lparr> status = 404, message = ''Video is unavailable or private'' \<rparr>
          else if includesStr msg ''age-restricted''
          then \<lparr> status = 403, message = ''Video is age-restricted'' \<rparr>
          else if includesStr msg ''Sign in to confirm''
          then \<lparr> status = 403, message = ''Video requires sign-in to access'' \<rparr>
          else \<lparr> status = 500, message = ''Failed to download video. Please try again.'' \<rparr>
      | NonError \<Rightarrow>
          \<lparr> status = 500, message = ''Failed to download video. Please try again.'' \<rparr>)"

section \<open>Analyze route\<close>

text \<open>
  What \<open>ytdl.getInfo\<close> resolves to, as far as the two routes read it: the title and the
  rendition list.
\<close>

record videoInfo =
  title :: ustring
  infoFormats :: "RawRendition list"

text \<open>
  The body of a request. On a body that is not JSON \<open>request.json()\<close> rejects with a
  \<open>SyntaxError\<close>, whose message the runtime composes and which quotes the body; on the
  JSON value \<open>null\<close> the destructuring throws a \<open>TypeError\<close> with a message of the
  engine. Either error reaches the \<open>catch\<close> block. Any other parsed body is read by its
  properties, which may be missing.
\<close>

datatype 'a requestBody = Unparsable string | NullBody | Parsed 'a

definition destructureMessage :: string where
  "destructureMessage =
     ''Cannot destructure property '' @ [CHR 0x27] @ ''url'' @ [CHR 0x27] @ '' of '' @
     [CHR 0x27] @ ''(intermediate value)'' @ [CHR 0x27] @ '' as it is null.''"

datatype analyzeResponse = AnalyzeError errorBody | AnalyzeOk ustring "RenditionOption list"

text \<open>
  The analyze handler. The provider is a pair of parameters: \<open>validateURL\<close>, and
  \<open>getInfo\<close>, which resolves to the metadata or rejects. The response carries the title
  and the ranked options; the other display fields are left out.
\<close>

definition analyzePOST ::
  "(string \<Rightarrow> bool) \<Rightarrow> (string \<Rightarrow> thrown + videoInfo) \<Rightarrow> string option requestBody
    \<Rightarrow> analyzeResponse" where
  "analyzePOST validateURL getInfo body =
     (case body of
        Unparsable msg \<Rightarrow> AnalyzeError (analyzeCatch (Error msg))
      | NullBody \<Rightarrow> AnalyzeError (analyzeCatch (Error destructureMessage))
      | Parsed None \<Rightarrow> AnalyzeError \<lparr> status = 400, message = ''URL is required'' \<rparr>
      | Parsed (Some url) \<Rightarrow>
          if url = [] then AnalyzeError \<lparr> status = 400, message = ''URL is required'' \<rparr>
          else if \<not> validateURL url
          then AnalyzeError \<lparr> status = 400, message = ''Invalid YouTube URL'' \<rparr>
          else (case getInfo url of
                  Inl e \<Rightarrow> AnalyzeError (analyzeCatch e)
                | Inr info \<Rightarrow> AnalyzeOk (title info) (formats (infoFormats info))))"

section \<open>Download route\<close>

subsection \<open>File name\<close>

definition isWord :: "nat \<Rightarrow> bool" where
  "isWord c = ((48 \<le> c \<and> c \<le> 57) \<or> (65 \<le> c \<and> c \<le> 90) \<or> (97 \<le> c \<and> c \<le> 122) \<or> c = 95)"

text \<open>The class \<open>\s\<close>, which is also what \<open>trim\<close> removes.\<close>

definition isSpace :: "nat \<Rightarrow> bool" where
  "isSpace c = (c \<in> {9, 10, 11, 12, 13, 32, 160, 5760, 8232, 8233, 8239, 8287, 12288, 65279}
                \<or> (8192 \<le> c \<and> c \<le> 8202))"

text \<open>\<open>.replace(/[^\w\s-]/g, "")\<close>\<close>

definition strip :: "ustring \<Rightarrow> ustring" where
  "strip s = filter (\<lambda>c. isWord c \<or> isSpace c \<or> c = 45) s"

definition trim :: "ustring \<Rightarrow> ustring" where
  "trim s = rev (dropWhile isSpace (rev (dropWhile isSpace s)))"

text \<open>\<open>.replace(/\s+/g, "_")\<close>\<close>

function collapse :: "ustring \<Rightarrow> ustring" where
  "collapse [] = []"
| "collapse (c # cs) =
     (if isSpace c then 95 # collapse (dropWhile isSpace cs) else c # collapse cs)"
  by pat_completeness auto
termination
  by (relation "measure length") (auto simp: length_dropWhile_le less_Suc_eq_le)

text \<open>The three replacements every handler applies to the title for its file name.\<close>

definition cleanTitle :: "ustring \<Rightarrow> ustring" where
  "cleanTitle t = collapse (trim (strip t))"

text \<open>\<open>sanitizedTitle\<close> of the handler \<open>POST\<close>, with \<open>.substring(0, 100)\<close>.\<close>

definition sanitizedTitle :: "ustring \<Rightarrow> ustring" where
  "sanitizedTitle t = take 100 (cleanTitle t)"

subsection \<open>Responses\<close>

record headers =
  contentType :: string
  contentDisposition :: ustring
  cacheControl :: string
  contentLengthHeader :: "nat option"

text \<open>
  The body of a streaming response names the provider streams it is fed from: one
  rendition for a relay, the video and the audio rendition for the muxing subprocess.
\<close>

datatype body = Relay RawRendition | Mux RawRendition RawRendition

datatype response = JsonResponse errorBody | StreamResponse headers body

definition disposition :: "ustring \<Rightarrow> ustring" where
  "disposition filename = ustr ''attachment; filename=\"'' @ filename @ ustr ''\"''"

text \<open>\<open>info.formats.find((f) => f.itag === wanted)\<close>; an undefined \<open>wanted\<close> matches nothing.\<close>

definition findItag :: "RawRendition list \<Rightarrow> nat option \<Rightarrow> RawRendition option" where
  "findItag fs wanted = find (\<lambda>f. Some (itag f) = wanted) fs"

text \<open>
  \<open>new Headers\<close> accepts a value whose code units are all at most 255 and none of NUL,
  line feed and carriage return; on any other value it throws a \<open>TypeError\<close>. Leading
  and trailing blanks, which it would strip first, do not occur in the values below.
\<close>

definition validHeaderValue :: "ustring \<Rightarrow> bool" where
  "validHeaderValue v = (list_all (\<lambda>c. c \<le> 255) v \<and> 0 \<notin> set v \<and> 10 \<notin> set v \<and> 13 \<notin> set v)"

text \<open>
  The handler of the pre-muxed path. Its file name ends in the client's
  \<open>format.format\<close>, so \<open>new Headers\<close> may throw; the handler does not catch that, and
  the result is \<open>Inl\<close> of the error. \<open>headersError\<close> is the message the runtime gives
  the \<open>TypeError\<close> for a refused value.
\<close>

definition handleStandardDownload ::
  "(ustring \<Rightarrow> string) \<Rightarrow> videoInfo \<Rightarrow> RenditionOption \<Rightarrow> ustring \<Rightarrow> thrown + response" where
  "handleStandardDownload headersError info fmt t =
     (case findItag (infoFormats info) (optItag fmt) of
        None \<Rightarrow> Inr (JsonResponse \<lparr> status = 404, message = ''Requested format not found'' \<rparr>)
      | Some selectedFormat \<Rightarrow>
          (let filename = cleanTitle (title info) @ ustr ''.'' @ format fmt in
           if \<not> validHeaderValue (disposition filename)
           then Inl (Error (headersError (disposition filename)))
           else Inr (StreamResponse
             \<lparr> contentType = (if format fmt = ustr ''mp3'' then ''audio/mpeg'' else ''video/mp4''),
               contentDisposition = disposition filename,
               cacheControl = ''no-cache'',
               contentLengthHeader = contentLength selectedFormat \<rparr>
             (Relay selectedFormat))))"

definition handleAudioOnlyDownload :: "videoInfo \<Rightarrow> RenditionOption \<Rightarrow> ustring \<Rightarrow> response" where
  "handleAudioOnlyDownload info fmt t =
     (case findItag (infoFormats info) (optItag fmt) of
        None \<Rightarrow> JsonResponse \<lparr> status = 404, message = ''Requested audio format not found'' \<rparr>
      | Some selectedFormat \<Rightarrow>
          (let filename = cleanTitle (title info) @ ustr ''.mp3'' in
           StreamResponse
             \<lparr> contentType = ''audio/mpeg'',
               contentDisposition = disposition filename,
               cacheControl = ''no-cache'',
               contentLengthHeader = contentLength selectedFormat \<rparr>
             (Relay selectedFormat)))"

text \<open>
  \<open>setupThrows\<close> says whether opening the two streams or spawning the subprocess throws
  inside the \<open>try\<close> block.
\<close>

definition handleHighQualityDownload ::
  "bool \<Rightarrow> videoInfo \<Rightarrow> RenditionOption \<Rightarrow> ustring \<Rightarrow> response" where
  "handleHighQualityDownload setupThrows info fmt t =
     (case (findItag (infoFormats info) (videoItag fmt),
            findItag (infoFormats info) (audioItag fmt)) of
        (Some videoFormat, Some audioFormat) \<Rightarrow>
          if setupThrows
          then JsonResponse \<lparr> status = 500, message = ''Failed to process high quality video'' \<rparr>
          else (let filename = cleanTitle (title info) @ ustr ''.mp4'' in
                StreamResponse
                  \<lparr> contentType = ''video/mp4'',
                    contentDisposition = disposition filename,
                    cacheControl = ''no-cache'',
                    contentLengthHeader = None \<rparr>
                  (Mux videoFormat audioFormat))
      | _ \<Rightarrow> JsonResponse \<lparr> status = 404, message = ''Requested formats not found'' \<rparr>)"

text \<open>The body of a download request: \<open>url\<close> and \<open>format\<close>, either of which may be missing.\<close>

record downloadRequest =
  url :: "string option"
  requested :: "RenditionOption option"

text \<open>
  The download handler \<open>POST\<close>, with the provider and the runtime as parameters. What a
  handler throws is caught here, as what \<open>getInfo\<close> rejects with is.
\<close>

definition downloadPOST ::
  "(string \<Rightarrow> bool) \<Rightarrow> (string \<Rightarrow> thrown + videoInfo) \<Rightarrow> (ustring \<Rightarrow> string) \<Rightarrow> bool
    \<Rightarrow> downloadRequest requestBody \<Rightarrow> response" where
  "downloadPOST validateURL getInfo headersError setupThrows body =
     (case body of
        Unparsable msg \<Rightarrow> JsonResponse (downloadCatch (Error msg))
      | NullBody \<Rightarrow> JsonResponse (downloadCatch (Error destructureMessage))
      | Parsed req \<Rightarrow>
          (case (url req, requested req) of
             (Some u, Some fmt) \<Rightarrow>
               if u = [] then JsonResponse \<lparr> status = 400, message = ''URL and format are required'' \<rparr>
               else if \<not> validateURL u
               then JsonResponse \<lparr> status = 400, message = ''Invalid YouTube URL'' \<rparr>
               else (case getInfo u of
                       Inl e \<Rightarrow> JsonResponse (downloadCatch e)
                     | Inr info \<Rightarrow>
                         (let t = sanitizedTitle (title info) in
                          if isHighQuality fmt
                          then handleHighQualityDownload setupThrows info fmt t
                          else if optQuality fmt = ''Audio Only''
                          then handleAudioOnlyDownload info fmt t
                          else (case handleStandardDownload headersError info fmt t of
                                  Inl e \<Rightarrow> JsonResponse (downloadCatch e)
                                | Inr r \<Rightarrow> r)))
           | _ \<Rightarrow> JsonResponse \<lparr> status = 400, message = ''URL and format are required'' \<rparr>))"

subsection \<open>Stream relay\<close>

text \<open>
  A \<open>ReadableStream\<close> controller: the chunks enqueued so far and the state of the
  stream. \<open>enqueue\<close> and \<open>close\<close> throw on a stream that is no longer readable and
  \<open>error\<close> does nothing there; in each case the stream stays as it is.
\<close>

datatype streamState = Readable | Closed | Errored string

record 'c controller =
  forwarded :: "'c list"
  state :: streamState

definition enqueue :: "'c \<Rightarrow> 'c controller \<Rightarrow> 'c controller" where
  "enqueue chunk ctl =
     (if state ctl = Readable then ctl\<lparr>forwarded := forwarded ctl @ [chunk]\<rparr> else ctl)"

definition close :: "'c controller \<Rightarrow> 'c controller" where
  "close ctl = (if state ctl = Readable then ctl\<lparr>state := Closed\<rparr> else ctl)"

definition error :: "string \<Rightarrow> 'c controller \<Rightarrow> 'c controller" where
  "error e ctl = (if state ctl = Readable then ctl\<lparr>state := Errored e\<rparr> else ctl)"

datatype handle = Live | Destroyed

text \<open>
  What can happen to a relayed provider stream: its own \<open>data\<close>, \<open>end\<close> and \<open>error\<close>
  events, and the consumer's \<open>cancel\<close>.
\<close>

datatype 'c relayEvent = Data 'c | End | StreamError string | Cancel

record 'c relaySession =
  source :: handle
  relayController :: "'c controller"

definition relayStart :: "'c relaySession" where
  "relayStart = \<lparr> source = Live, relayController = \<lparr> forwarded = [], state = Readable \<rparr> \<rparr>"

text \<open>
  The listeners of \<open>start\<close> and the \<open>cancel\<close> callback of the two single-stream handlers.
  When the consumer cancels, the runtime closes the stream and then runs the callback.
\<close>

fun relayHandle :: "'c relaySession \<Rightarrow> 'c relayEvent \<Rightarrow> 'c relaySession" where
  "relayHandle s (Data chunk) = s\<lparr>relayController := enqueue chunk (relayController s)\<rparr>"
| "relayHandle s End = s\<lparr>relayController := close (relayController s)\<rparr>"
| "relayHandle s (StreamError e) = s\<lparr>relayController := error e (relayController s)\<rparr>"
| "relayHandle s Cancel =
     s\<lparr>relayController := close (relayController s), source := Destroyed\<rparr>"

definition relay :: "'c relayEvent list \<Rightarrow> 'c relaySession" where
  "relay es = foldl relayHandle relayStart es"

subsection \<open>Mux pipeline\<close>

datatype process = Running | Killed | Exited nat

text \<open>
  What can happen during a split download: data and end of the subprocess's standard
  output, its \<open>error\<close> event, data on its standard error, the consumer's \<open>cancel\<close>,
  an error of either input stream, and the exit of the subprocess with a code.
\<close>

datatype 'c muxEvent =
    StdoutData 'c
  | StdoutEnd
  | ProcessError string
  | StderrData string
  | MuxCancel
  | VideoError string
  | AudioError string
  | ProcessExit nat

record 'c muxSession =
  videoStream :: handle
  audioStream :: handle
  ffmpegProcess :: process
  muxController :: "'c controller"
  serverLog :: "string list"

definition muxStart :: "'c muxSession" where
  "muxStart =
     \<lparr> videoStream = Live, audioStream = Live, ffmpegProcess = Running,
       muxController = \<lparr> forwarded = [], state = Readable \<rparr>, serverLog = [] \<rparr>"

text \<open>
  The listeners \<open>handleHighQualityDownload\<close> registers, and its \<open>cancel\<close> callback. The
  handler registers no listener for an error of the video or the audio stream and none
  for the exit of the subprocess: at these events none of its statements runs, and the
  exit is only recorded as the state the subprocess is in.
\<close>

fun muxHandle :: "'c muxSession \<Rightarrow> 'c muxEvent \<Rightarrow> 'c muxSession" where
  "muxHandle s (StdoutData chunk) = s\<lparr>muxController := enqueue chunk (muxController s)\<rparr>"
| "muxHandle s StdoutEnd = s\<lparr>muxController := close (muxController s)\<rparr>"
| "muxHandle s (ProcessError e) =
     s\<lparr>muxController := error e (muxController s),
       serverLog := serverLog s @ [''FFmpeg error: '' @ e]\<rparr>"
| "muxHandle s (StderrData d) = s\<lparr>serverLog := serverLog s @ [''FFmpeg stderr: '' @ d]\<rparr>"
| "muxHandle s MuxCancel =
     s\<lparr>muxController := close (muxController s),
       ffmpegProcess := (if ffmpegProcess s = Running then Killed else ffmpegProcess s),
       videoStream := Destroyed, audioStream := Destroyed\<rparr>"
| "muxHandle s (VideoError e) = s"
| "muxHandle s (AudioError e) = s"
| "muxHandle s (ProcessExit code) =
     s\<lparr>ffmpegProcess := (if ffmpegProcess s = Running then Exited code else ffmpegProcess s)\<rparr>"

definition mux :: "'c muxEvent list \<Rightarrow> 'c muxSession" where
  "mux es = foldl muxHandle muxStart es"

text \<open>The status of an analyze response; a response without an explicit status is 200.\<close>

definition analyzeStatus :: "analyzeResponse \<Rightarrow> nat" where
  "analyzeStatus r = (case r of AnalyzeError e \<Rightarrow> status e | AnalyzeOk t opts \<Rightarrow> 200)"

text \<open>The chunks a provider stream emits before its first event that is not \<open>data\<close>.\<close>

fun dataPrefix :: "'c relayEvent list \<Rightarrow> 'c list" where
  "dataPrefix (Data chunk # es) = chunk # dataPrefix es"
| "dataPrefix es = []"

section \<open>Notions used to state the properties\<close>

text \<open>The entries the split pass adds for a list of candidates.\<close>

definition highEntries :: "RawRendition \<Rightarrow> RawRendition list \<Rightarrow> catalog" where
  "highEntries a vs = map (\<lambda>v. (labelOf v @ ''_high'', highOption a v)) vs"

text \<open>
  The comparator of the ranking orders the options as the lexicographic order of this
  key does: the audio label last, then the larger resolution first, then the marked
  options first.
\<close>

definition sortKey :: "RenditionOption \<Rightarrow> bool \<times> int \<times> bool" where
  "sortKey x = (optQuality x = ''Audio Only'', - int (resolution x), \<not> isHighQuality x)"

datatype pathKind = PreMuxed | Split | AudioOnly

text \<open>
  The path an option is served by, read off its own fields: a split option carries
  \<open>videoItag\<close>; of the others, the audio-only option is the one without video.
\<close>

definition pathKind :: "RenditionOption \<Rightarrow> pathKind" where
  "pathKind x = (if videoItag x \<noteq> None then Split else if optHasVideo x then PreMuxed else AudioOnly)"

text \<open>The display label of a split option, as \<open>highOption\<close> builds it from the raw label.\<close>

definition display :: "string \<Rightarrow> string" where
  "display q = (if 1080 \<le> extractResolution q then q @ '' (High Quality)'' else q)"

text \<open>The pair of display label and path of an option.\<close>

definition catalogPair :: "RenditionOption \<Rightarrow> string \<times> pathKind" where
  "catalogPair x = (optQuality x, pathKind x)"

text \<open>The bitrate of a rendition, with 0 for an undefined one.\<close>

definition videoRate :: "RawRendition \<Rightarrow> nat" where
  "videoRate f = (case bitrate f of None \<Rightarrow> 0 | Some b \<Rightarrow> b)"

section \<open>Example renditions\<close>

definition exAudio :: RawRendition where
  "exAudio = \<lparr> itag = 140, mimeType = Some ''audio/mp4'', qualityLabel = None,
     quality = ''tiny'', bitrate = Some 130000, audioBitrate = Some 128, container = ''mp4'',
     hasVideo = False, hasAudio = True, contentLength = None \<rparr>"

definition exVideo1080 :: RawRendition where
  "exVideo1080 = \<lparr> itag = 137, mimeType = Some ''video/mp4'', qualityLabel = Some ''1080p'',
     quality = ''hd1080'', bitrate = Some 4000000, audioBitrate = None, container = ''mp4'',
     hasVideo = True, hasAudio = False, contentLength = None \<rparr>"

definition exCombined360 :: RawRendition where
  "exCombined360 = \<lparr> itag = 18, mimeType = Some ''video/mp4'', qualityLabel = Some ''360p'',
     quality = ''medium'', bitrate = Some 500000, audioBitrate = Some 96, container = ''mp4'',
     hasVideo = True, hasAudio = True, contentLength = None \<rparr>"

definition exInfo :: videoInfo where
  "exInfo = \<lparr> title = ustr ''My Video: Part #1!'',
              infoFormats = [exAudio, exVideo1080, exCombined360] \<rparr>"


definition exVideo720 :: RawRendition where
  "exVideo720 = \<lparr> itag = 136, mimeType = Some ''video/mp4'', qualityLabel = Some ''720p'',
     quality = ''hd720'', bitrate = Some 2000000, audioBitrate = None, container = ''mp4'',
     hasVideo = True, hasAudio = False, contentLength = Some 52428800 \<rparr>"

definition exCombined1080 :: RawRendition where
  "exCombined1080 = \<lparr> itag = 37, mimeType = Some ''video/mp4'', qualityLabel = Some ''1080p'',
     quality = ''hd1080'', bitrate = Some 3000000, audioBitrate = Some 192, container = ''mp4'',
     hasVideo = True, hasAudio = True, contentLength = None \<rparr>"

definition exFormats :: "RawRendition list" where
  "exFormats = [exAudio, exCombined360, exVideo720, exCombined1080, exVideo1080]"

definition exNoBitrate1080 :: RawRendition where
  "exNoBitrate1080 = \<lparr> itag = 399, mimeType = Some ''video/mp4'', qualityLabel = Some ''1080p'',
     quality = ''hd1080'', bitrate = None, audioBitrate = None, container = ''mp4'',
     hasVideo = True, hasAudio = False, contentLength = None \<rparr>"

definition exLongInfo :: videoInfo where
  "exLongInfo = \<lparr> title = replicate 150 97,
                  infoFormats = [exAudio, exVideo1080, exCombined360] \<rparr>"



section \<open>Size estimation\<close>



lemma resolution_highOption: "resolution (highOption a v) = extractResolution (labelOf v)"
  by (simp add: highOption_def Let_def)

lemma resolution_combinedOption:
  "resolution (combinedOption f) = extractResolution (combinedQuality f)"
  by (simp add: combinedOption_def Let_def)






lemma extractResolution_examples:
  "extractResolution ''360p'' = 360" "extractResolution ''1080p'' = 1080"
  "extractResolution ''720p'' = 720" "extractResolution ''Audio Only'' = 0"
  by (simp_all add: extractResolution_def isDigit_def parseDigits_def digitVal_def)



section \<open>File name sanitization\<close>

lemma isWord_underscore: "isWord 95" "\<not> isSpace 95"
  by (simp_all add: isWord_def isSpace_def)

lemma set_strip: "c \<in> set (strip s) \<Longrightarrow> isWord c \<or> isSpace c \<or> c = 45"
  by (auto simp: strip_def)

lemma set_trim: "set (trim s) \<subseteq> set s"
proof -
  have "set (dropWhile isSpace (rev (dropWhile isSpace s))) \<subseteq> set (rev (dropWhile isSpace s))"
    by (rule set_dropWhileD [THEN subsetI])
  also have "\<dots> \<subseteq> set s"
    using set_dropWhileD [of _ isSpace s] by auto
  finally show ?thesis by (simp add: trim_def)
qed

lemma set_collapse: "c \<in> set (collapse s) \<Longrightarrow> c = 95 \<or> (c \<in> set s \<and> \<not> isSpace c)"
proof (induction s rule: collapse.induct)
  case 1
  then show ?case by simp
next
  case (2 d ds)
  then show ?case
    by (auto split: if_splits dest: set_dropWhileD)
qed

lemma collapse_no_space: "(\<forall>c\<in>set s. \<not> isSpace c) \<Longrightarrow> collapse s = s"
  by (induction s) auto

lemma collapse_spaces:
  "ws \<noteq> [] \<Longrightarrow> \<forall>c\<in>set ws. isSpace c \<Longrightarrow> ys = [] \<or> \<not> isSpace (hd ys) \<Longrightarrow>
   collapse (ws @ ys) = 95 # collapse ys"
proof -
  assume ws: "ws \<noteq> []" and sp: "\<forall>c\<in>set ws. isSpace c" and ys: "ys = [] \<or> \<not> isSpace (hd ys)"
  obtain w ws' where w: "ws = w # ws'" using ws by (cases ws) auto
  have "dropWhile isSpace (ws' @ ys) = dropWhile isSpace ys"
    using sp w by (simp add: dropWhile_append)
  also have "\<dots> = ys" using ys by (cases ys) auto
  finally show ?thesis using sp w by simp
qed

lemma collapse_run:
  assumes "\<forall>c\<in>set xs. \<not> isSpace c" "ws \<noteq> []" "\<forall>c\<in>set ws. isSpace c"
    "ys = [] \<or> \<not> isSpace (hd ys)"
  shows "collapse (xs @ ws @ ys) = xs @ 95 # collapse ys"
  using assms(1)
proof (induction xs)
  case Nil
  then show ?case using collapse_spaces [OF assms(2-4)] by simp
next
  case (Cons x xs)
  then show ?case by simp
qed

lemma trim_ends: "trim s = [] \<or> (\<not> isSpace (hd (trim s)) \<and> \<not> isSpace (last (trim s)))"
proof (cases "trim s = []")
  case True
  then show ?thesis by simp
next
  case False
  let ?a = "dropWhile isSpace s"
  let ?b = "dropWhile isSpace (rev ?a)"
  have b: "?b \<noteq> []" using False by (simp add: trim_def)
  then have hb: "\<not> isSpace (hd ?b)" by (rule hd_dropWhile)
  have l: "last (trim s) = hd ?b" using b by (simp add: trim_def last_rev)
  have "?a \<noteq> []"
  proof
    assume "?a = []"
    then have "?b = []" by (simp del: dropWhile_eq_Nil_conv)
    with b show False by simp
  qed
  then have ha: "\<not> isSpace (hd ?a)" by (rule hd_dropWhile)
  have "\<exists>ys. rev ?a = ys @ ?b" 
    by (metis takeWhile_dropWhile_id)
  then obtain ys where "rev ?a = ys @ ?b" by blast
  then have "?a = rev ?b @ rev ys" by (metis rev_append rev_rev_ident)
  then have "hd ?a = hd (rev ?b)" using b by (metis hd_append2 rev_is_Nil_conv)
  then have "hd (trim s) = hd ?a" by (simp add: trim_def)
  then show ?thesis using ha hb l by simp
qed

lemma cleanTitle_example: "cleanTitle (ustr ''My Video: Part #1!'') = ustr ''My_Video_Part_1''"
  by (simp add: cleanTitle_def ustr_def strip_def trim_def isWord_def isSpace_def)

lemma trim_decomp:
  "\<exists>a b. s = a @ trim s @ b \<and> (\<forall>c\<in>set a. isSpace c) \<and> (\<forall>c\<in>set b. isSpace c)"
proof -
  let ?a = "dropWhile isSpace s"
  let ?t = "takeWhile isSpace (rev ?a)"
  have "rev (?t @ dropWhile isSpace (rev ?a)) = ?a"
    by (simp only: takeWhile_dropWhile_id rev_rev_ident)
  then have "?a = trim s @ rev ?t" by (simp only: rev_append trim_def)
  moreover have "s = takeWhile isSpace s @ ?a" by simp
  ultimately have "s = takeWhile isSpace s @ trim s @ rev ?t" by simp
  moreover have "\<forall>c\<in>set (takeWhile isSpace s). isSpace c" by (auto dest: set_takeWhileD)
  moreover have "\<forall>c\<in>set (rev ?t). isSpace c" by (auto dest: set_takeWhileD)
  ultimately show ?thesis by blast
qed

lemma set_cleanTitle: "c \<in> set (cleanTitle t) \<Longrightarrow> isWord c \<or> c = 45"
proof -
  assume "c \<in> set (cleanTitle t)"
  then have "c = 95 \<or> (c \<in> set (trim (strip t)) \<and> \<not> isSpace c)"
    unfolding cleanTitle_def by (rule set_collapse)
  then show ?thesis
    using set_trim [of "strip t"] set_strip [of c t] isWord_underscore by auto
qed

lemma length_sanitizedTitle: "length (sanitizedTitle t) \<le> 100"
  by (simp add: sanitizedTitle_def)

lemma isWord_not_space: "isWord c \<Longrightarrow> \<not> isSpace c"
  by (auto simp: isWord_def isSpace_def)

lemma dropWhile_none: "\<forall>c\<in>set xs. \<not> P c \<Longrightarrow> dropWhile P xs = xs"
  by (cases xs) auto

lemma cleanTitle_words: "list_all isWord s \<Longrightarrow> cleanTitle s = s"
proof -
  assume w: "list_all isWord s"
  then have n: "\<forall>c\<in>set s. \<not> isSpace c"
    by (auto simp: list_all_iff isWord_not_space)
  have "strip s = s"
    using w by (simp add: strip_def list_all_iff)
  moreover have "trim s = s"
    using n by (simp add: trim_def dropWhile_none)
  ultimately show ?thesis
    using n by (simp add: cleanTitle_def collapse_no_space)
qed

lemma validHeaderValue_append:
  "validHeaderValue (xs @ ys) \<longleftrightarrow> validHeaderValue xs \<and> validHeaderValue ys"
  by (auto simp: validHeaderValue_def)

lemma validHeaderValue_cleanTitle: "validHeaderValue (cleanTitle t)"
proof -
  have "c \<le> 255 \<and> c \<noteq> 0 \<and> c \<noteq> 10 \<and> c \<noteq> 13" if "c \<in> set (cleanTitle t)" for c
    using set_cleanTitle [OF that] by (auto simp: isWord_def)
  then show ?thesis
    by (auto simp: validHeaderValue_def list_all_iff)
qed

text \<open>
  The file names of the audio-only and of the split handler consist of the cleaned title
  and a fixed extension, so \<open>new Headers\<close> accepts their headers.
\<close>

lemma validHeaderValue_fixed_extension:
  "validHeaderValue (disposition (cleanTitle t @ ustr ''.mp3''))"
  "validHeaderValue (disposition (cleanTitle t @ ustr ''.mp4''))"
proof -
  have "validHeaderValue (ustr ''attachment; filename=\"'')" "validHeaderValue (ustr ''\"'')"
    "validHeaderValue (ustr ''.mp3'')" "validHeaderValue (ustr ''.mp4'')"
    by (simp_all add: validHeaderValue_def ustr_def)
  then show "validHeaderValue (disposition (cleanTitle t @ ustr ''.mp3''))"
    "validHeaderValue (disposition (cleanTitle t @ ustr ''.mp4''))"
    by (simp_all add: disposition_def validHeaderValue_append validHeaderValue_cleanTitle)
qed

lemma handlers_ignore_title:
  "handleStandardDownload headersError info fmt t = handleStandardDownload headersError info fmt t'"
  "handleAudioOnlyDownload info fmt t = handleAudioOnlyDownload info fmt t'"
  "handleHighQualityDownload setupThrows info fmt t =
     handleHighQualityDownload setupThrows info fmt t'"
  by (simp_all add: handleStandardDownload_def handleAudioOnlyDownload_def
      handleHighQualityDownload_def)



lemma audio_response:
  "findItag (infoFormats info) (optItag fmt) = Some sel \<Longrightarrow>
   handleAudioOnlyDownload info fmt t =
     StreamResponse
       \<lparr> contentType = ''audio/mpeg'',
         contentDisposition = disposition (cleanTitle (title info) @ ustr ''.mp3''),
         cacheControl = ''no-cache'',
         contentLengthHeader = contentLength sel \<rparr>
       (Relay sel)"
  by (simp add: handleAudioOnlyDownload_def Let_def)


lemma findItag_examples:
  "findItag (infoFormats exInfo) (Some 18) = Some exCombined360"
  "findItag (infoFormats exInfo) (Some 140) = Some exAudio"
  "findItag (infoFormats exInfo) (Some 137) = Some exVideo1080"
  by (simp_all add: findItag_def exInfo_def exAudio_def exVideo1080_def exCombined360_def)

lemma example_option_fields:
  "optItag (combinedOption exCombined360) = Some 18"
  "format (combinedOption exCombined360) = ustr ''mp4''"
  "\<not> isHighQuality (combinedOption exCombined360)"
  "optQuality (combinedOption exCombined360) = ''360p''"
  "videoItag (highOption exAudio exVideo1080) = Some 137"
  "audioItag (highOption exAudio exVideo1080) = Some 140"
  "isHighQuality (highOption exAudio exVideo1080)"
  "optItag (audioOption exAudio) = Some 140"
  "\<not> isHighQuality (audioOption exAudio)"
  "optQuality (audioOption exAudio) = ''Audio Only''"
  by (simp_all add: combinedOption_def highOption_def audioOption_def combinedQuality_def
      labelOf_def Let_def exCombined360_def exAudio_def exVideo1080_def
      extractResolution_examples)

lemma exLongInfo_title:
  "cleanTitle (title exLongInfo) = title exLongInfo"
  "length (title exLongInfo) = 150"
  "length (sanitizedTitle (title exLongInfo)) = 100"
proof -
  have "list_all isWord (title exLongInfo)"
    by (simp add: exLongInfo_def list_all_iff isWord_def)
  then show c: "cleanTitle (title exLongInfo) = title exLongInfo"
    by (rule cleanTitle_words)
  show "length (title exLongInfo) = 150"
    by (simp add: exLongInfo_def)
  then show "length (sanitizedTitle (title exLongInfo)) = 100"
    by (simp add: sanitizedTitle_def c)
qed

lemma exLongInfo_formats: "infoFormats exLongInfo = infoFormats exInfo"
  by (simp add: exLongInfo_def exInfo_def)

lemma exLongInfo_valid:
  "validHeaderValue (disposition (title exLongInfo @ ustr ''.'' @ ustr ''mp4''))"
  by (simp add: validHeaderValue_def disposition_def ustr_def exLongInfo_def list_all_iff)

text \<open>
  C9. The file name of the \<open>Content-Disposition\<close> header is not cut to 100 characters.
  For a title of 150 letters \<open>sanitizedTitle\<close>, which \<open>POST\<close> computes when the metadata
  has arrived, has 100 characters; every handler receives it and does not read it, and
  builds the header from the whole cleaned title, so that on each of the three paths the
  header carries all 150 letters before the extension and is 177 characters long.
\<close>

theorem C9_attachment_name_is_not_capped:
  "length (title exLongInfo) = 150 \<and>
   cleanTitle (title exLongInfo) = title exLongInfo \<and>
   length (sanitizedTitle (title exLongInfo)) = 100 \<and>
   downloadPOST (\<lambda>u. True) (\<lambda>u. Inr exLongInfo) headersError False
     (Parsed \<lparr> url = Some ''https://youtu.be/abc'',
               requested = Some (combinedOption exCombined360) \<rparr>) =
     StreamResponse
       \<lparr> contentType = ''video/mp4'',
         contentDisposition = disposition (title exLongInfo @ ustr ''.mp4''),
         cacheControl = ''no-cache'',
         contentLengthHeader = None \<rparr>
       (Relay exCombined360) \<and>
   downloadPOST (\<lambda>u. True) (\<lambda>u. Inr exLongInfo) headersError False
     (Parsed \<lparr> url = Some ''https://youtu.be/abc'',
               requested = Some (audioOption exAudio) \<rparr>) =
     StreamResponse
       \<lparr> contentType = ''audio/mpeg'',
         contentDisposition = disposition (title exLongInfo @ ustr ''.mp3''),
         cacheControl = ''no-cache'',
         contentLengthHeader = None \<rparr>
       (Relay exAudio) \<and>
   downloadPOST (\<lambda>u. True) (\<lambda>u. Inr exLongInfo) headersError False
     (Parsed \<lparr> url = Some ''https://youtu.be/abc'',
               requested = Some (highOption exAudio exVideo1080) \<rparr>) =
     StreamResponse
       \<lparr> contentType = ''video/mp4'',
         contentDisposition = disposition (title exLongInfo @ ustr ''.mp4''),
         cacheControl = ''no-cache'',
         contentLengthHeader = None \<rparr>
       (Mux exVideo1080 exAudio) \<and>
   length (disposition (title exLongInfo @ ustr ''.mp4'')) = 177 \<and>
   length (disposition (title exLongInfo @ ustr ''.mp3'')) = 177 \<and>
   handleStandardDownload headersError info fmt t =
     handleStandardDownload headersError info fmt t' \<and>
   handleAudioOnlyDownload info fmt t = handleAudioOnlyDownload info fmt t' \<and>
   handleHighQualityDownload setupThrows info fmt t =
     handleHighQualityDownload setupThrows info fmt t'"
proof (intro conjI)
  note f = findItag_examples [folded exLongInfo_formats]
  have c: "contentLength exCombined360 = None" "contentLength exAudio = None"
    by (simp_all add: exCombined360_def exAudio_def)
  show "length (title exLongInfo) = 150"
    "cleanTitle (title exLongInfo) = title exLongInfo"
    "length (sanitizedTitle (title exLongInfo)) = 100"
    by (rule exLongInfo_title)+
  show "downloadPOST (\<lambda>u. True) (\<lambda>u. Inr exLongInfo) headersError False
     (Parsed \<lparr> url = Some ''https://youtu.be/abc'',
               requested = Some (combinedOption exCombined360) \<rparr>) =
     StreamResponse
       \<lparr> contentType = ''video/mp4'',
         contentDisposition = disposition (title exLongInfo @ ustr ''.mp4''),
         cacheControl = ''no-cache'',
         contentLengthHeader = None \<rparr>
       (Relay exCombined360)"
    by (simp add: downloadPOST_def Let_def handleStandardDownload_def example_option_fields f
        exLongInfo_title exLongInfo_valid c) (simp add: ustr_def)
  show "downloadPOST (\<lambda>u. True) (\<lambda>u. Inr exLongInfo) headersError False
     (Parsed \<lparr> url = Some ''https://youtu.be/abc'',
               requested = Some (audioOption exAudio) \<rparr>) =
     StreamResponse
       \<lparr> contentType = ''audio/mpeg'',
         contentDisposition = disposition (title exLongInfo @ ustr ''.mp3''),
         cacheControl = ''no-cache'',
         contentLengthHeader = None \<rparr>
       (Relay exAudio)"
    by (simp add: downloadPOST_def Let_def handleAudioOnlyDownload_def example_option_fields f
        exLongInfo_title c)
  show "downloadPOST (\<lambda>u. True) (\<lambda>u. Inr exLongInfo) headersError False
     (Parsed \<lparr> url = Some ''https://youtu.be/abc'',
               requested = Some (highOption exAudio exVideo1080) \<rparr>) =
     StreamResponse
       \<lparr> contentType = ''video/mp4'',
         contentDisposition = disposition (title exLongInfo @ ustr ''.mp4''),
         cacheControl = ''no-cache'',
         contentLengthHeader = None \<rparr>
       (Mux exVideo1080 exAudio)"
    by (simp add: downloadPOST_def Let_def handleHighQualityDownload_def example_option_fields f
        exLongInfo_title)
  show "length (disposition (title exLongInfo @ ustr ''.mp4'')) = 177"
    "length (disposition (title exLongInfo @ ustr ''.mp3'')) = 177"
    by (simp_all add: disposition_def ustr_def exLongInfo_def)
  show "handleStandardDownload headersError info fmt t =
     handleStandardDownload headersError info fmt t'"
    "handleAudioOnlyDownload info fmt t = handleAudioOnlyDownload info fmt t'"
    "handleHighQualityDownload setupThrows info fmt t =
     handleHighQualityDownload setupThrows info fmt t'"
    by (rule handlers_ignore_title)+
qed

section \<open>Error responses of the analyze route\<close>

lemma analyze_missing_url:
  "body = Parsed None \<or> body = Parsed (Some []) \<Longrightarrow>
   analyzeStatus (analyzePOST validateURL getInfo body) = 400"
  by (auto simp: analyzePOST_def analyzeStatus_def)

lemma analyze_body_throws:
  "analyzePOST validateURL getInfo (Unparsable msg) = AnalyzeError (analyzeCatch (Error msg))"
  "analyzeStatus (analyzePOST validateURL getInfo NullBody) = 500"
  by (simp_all add: analyzePOST_def analyzeStatus_def analyzeCatch_def destructureMessage_def)

lemma analyze_invalid_url:
  "u \<noteq> [] \<Longrightarrow> \<not> validateURL u \<Longrightarrow>
   analyzeStatus (analyzePOST validateURL getInfo (Parsed (Some u))) = 400"
  by (simp add: analyzePOST_def analyzeStatus_def)

lemma analyze_thrown:
  "u \<noteq> [] \<Longrightarrow> validateURL u \<Longrightarrow> getInfo u = Inl e \<Longrightarrow>
   analyzePOST validateURL getInfo (Parsed (Some u)) = AnalyzeError (analyzeCatch e)"
  by (simp add: analyzePOST_def)

lemma analyzeCatch_unavailable:
  "includesStr msg ''Video unavailable'' \<Longrightarrow> status (analyzeCatch (Error msg)) = 404"
  by (simp add: analyzeCatch_def)

lemma analyzeCatch_age_restricted:
  "\<not> includesStr msg ''Video unavailable'' \<Longrightarrow> includesStr msg ''age-restricted'' \<Longrightarrow>
   status (analyzeCatch (Error msg)) = 403"
  by (simp add: analyzeCatch_def)

lemma analyzeCatch_other:
  "\<not> includesStr msg ''Video unavailable'' \<Longrightarrow> \<not> includesStr msg ''age-restricted'' \<Longrightarrow>
   status (analyzeCatch (Error msg)) = 500"
  "status (analyzeCatch NonError) = 500"
  by (simp_all add: analyzeCatch_def)

lemma sign_in_message:
  "\<not> includesStr ''Sign in to confirm your age'' ''Video unavailable''"
  "\<not> includesStr ''Sign in to confirm your age'' ''age-restricted''"
  "includesStr ''Sign in to confirm your age'' ''Sign in to confirm''"
  by simp_all

text \<open>
  C8. A video behind a sign-in gate, which the provider rejects with a message such as
  \<open>Sign in to confirm your age\<close>, gets status 500 from the analyze route: its
  \<open>catch\<close> block knows the messages for an unavailable and for an age-restricted video
  only. The download route answers the same rejection with status 403.
\<close>

theorem C8_analyze_sign_in_gate_is_500:
  "analyzeStatus (analyzePOST (\<lambda>u. True) (\<lambda>u. Inl (Error ''Sign in to confirm your age''))
      (Parsed (Some ''https://youtu.be/abc''))) = 500 \<and>
   status (downloadCatch (Error ''Sign in to confirm your age'')) = 403"
  by (simp add: analyzePOST_def analyzeStatus_def analyzeCatch_def downloadCatch_def)

section \<open>Resolving the chosen option\<close>




lemma download_body_throws:
  "downloadPOST validateURL getInfo headersError setupThrows (Unparsable msg) =
     JsonResponse (downloadCatch (Error msg))"
  "downloadPOST validateURL getInfo headersError setupThrows NullBody =
     JsonResponse \<lparr> status = 500, message = ''Failed to download video. Please try again.'' \<rparr>"
  by (simp_all add: downloadPOST_def downloadCatch_def destructureMessage_def)

lemma downloadPOST_dispatch:
  assumes "url req = Some u" "requested req = Some fmt" "u \<noteq> []" "validateURL u"
    "getInfo u = Inr info"
  shows "downloadPOST validateURL getInfo headersError setupThrows (Parsed req) =
    (if isHighQuality fmt
     then handleHighQualityDownload setupThrows info fmt (sanitizedTitle (title info))
     else if optQuality fmt = ''Audio Only''
     then handleAudioOnlyDownload info fmt (sanitizedTitle (title info))
     else (case handleStandardDownload headersError info fmt (sanitizedTitle (title info)) of
             Inl e \<Rightarrow> JsonResponse (downloadCatch e)
           | Inr r \<Rightarrow> r))"
  using assms by (simp add: downloadPOST_def Let_def)



lemma standard_missing:
  "findItag (infoFormats info) (optItag fmt) = None \<Longrightarrow>
   handleStandardDownload headersError info fmt t =
     Inr (JsonResponse \<lparr> status = 404, message = ''Requested format not found'' \<rparr>)"
  by (simp add: handleStandardDownload_def)

text \<open>
  An option of the catalog that is served by the split path and is not marked carries no
  \<open>itag\<close>. The dispatcher sends it to the handler of the pre-muxed path, which finds no
  rendition for the missing identifier, whatever the fetched list holds.
\<close>

lemma findItag_undefined: "findItag fs None = None"
  by (simp add: findItag_def find_None_iff)

lemma unmarked_split_option_not_found:
  assumes "url req = Some u" "requested req = Some (highOption a v)" "u \<noteq> []" "validateURL u"
    "getInfo u = Inr info" "\<not> isHighQuality (highOption a v)"
    "optQuality (highOption a v) \<noteq> ''Audio Only''"
  shows "downloadPOST validateURL getInfo headersError setupThrows (Parsed req) =
    JsonResponse \<lparr> status = 404, message = ''Requested format not found'' \<rparr>"
proof -
  have "optItag (highOption a v) = None" by (simp add: highOption_def Let_def)
  then have "findItag (infoFormats info) (optItag (highOption a v)) = None"
    by (simp add: findItag_undefined)
  then show ?thesis
    using downloadPOST_dispatch [where req = req and u = u and validateURL = validateURL
        and getInfo = getInfo and info = info and headersError = headersError
        and setupThrows = setupThrows and fmt = "highOption a v"] assms
    by (simp add: standard_missing)
qed




section \<open>Stream relay of the audio-only path\<close>

lemma relayHandle_not_readable:
  "state (relayController s) \<noteq> Readable \<Longrightarrow>
   relayController (relayHandle s e) = relayController s"
  by (cases e) (simp_all add: enqueue_def close_def error_def)

lemma relay_not_readable:
  "state (relayController s) \<noteq> Readable \<Longrightarrow>
   relayController (foldl relayHandle s es) = relayController s"
proof (induction es arbitrary: s)
  case Nil
  then show ?case by simp
next
  case (Cons e es)
  have "relayController (relayHandle s e) = relayController s"
    using Cons.prems by (rule relayHandle_not_readable)
  then show ?case using Cons.IH [of "relayHandle s e"] Cons.prems by simp
qed

lemma relay_forwarded:
  "state (relayController s) = Readable \<Longrightarrow>
   forwarded (relayController (foldl relayHandle s es)) =
     forwarded (relayController s) @ dataPrefix es"
proof (induction es arbitrary: s)
  case Nil
  then show ?case by simp
next
  case (Cons e es)
  show ?case
  proof (cases e)
    case (Data chunk)
    then show ?thesis
      using Cons.IH [of "relayHandle s e"] Cons.prems by (simp add: enqueue_def)
  next
    case End
    then show ?thesis
      using relay_not_readable [of "relayHandle s e" es] Cons.prems by (simp add: close_def)
  next
    case (StreamError x)
    then show ?thesis
      using relay_not_readable [of "relayHandle s e" es] Cons.prems by (simp add: error_def)
  next
    case Cancel
    then show ?thesis
      using relay_not_readable [of "relayHandle s e" es] Cons.prems by (simp add: close_def)
  qed
qed

lemma relay_dataPrefix: "forwarded (relayController (relay es)) = dataPrefix es"
  using relay_forwarded [of relayStart es] by (simp add: relay_def relayStart_def)

lemma dataPrefix_complete: "dataPrefix (map Data cs @ e # es) = cs @ dataPrefix (e # es)"
  by (induction cs) simp_all

lemma relay_complete:
  "forwarded (relayController (relay (map Data cs @ [End]))) = cs"
  "state (relayController (relay (map Data cs @ [End]))) = Closed"
proof -
  show "forwarded (relayController (relay (map Data cs @ [End]))) = cs"
    by (simp add: relay_dataPrefix dataPrefix_complete)
  have "state (relayController (foldl relayHandle s (map Data cs))) = Readable"
    if "state (relayController s) = Readable" for s :: "'a relaySession"
    using that by (induction cs arbitrary: s) (simp_all add: enqueue_def)
  then show "state (relayController (relay (map Data cs @ [End]))) = Closed"
    by (simp add: relay_def relayStart_def close_def)
qed

text \<open>
  C10. On the audio-only path the response declares \<open>audio/mpeg\<close> and a file name that
  ends in \<open>.mp3\<close>, and its body is the relay of the provider stream of the rendition
  found by its identifier, whatever the container of that rendition is. The relay
  enqueues every chunk the stream emits before its first other event, in order and
  unchanged; a stream that emits its chunks and ends leaves exactly these chunks and a
  closed body.
\<close>

theorem C10_audio_only_is_forwarded_unchanged:
  "(findItag (infoFormats info) (optItag fmt) = Some sel \<longrightarrow>
      handleAudioOnlyDownload info fmt t =
        StreamResponse
          \<lparr> contentType = ''audio/mpeg'',
            contentDisposition = disposition (cleanTitle (title info) @ ustr ''.mp3''),
            cacheControl = ''no-cache'',
            contentLengthHeader = contentLength sel \<rparr>
          (Relay sel)) \<and>
   forwarded (relayController (relay es)) = dataPrefix es \<and>
   forwarded (relayController (relay (map Data cs @ [End]))) = cs \<and>
   state (relayController (relay (map Data cs @ [End]))) = Closed"
  using audio_response [of info fmt sel t] relay_dataPrefix [of es] relay_complete [of cs]
  by simp

theorem C10_audio_only_is_forwarded_unchanged_witness:
  "findItag (infoFormats exInfo) (optItag (audioOption exAudio)) = Some exAudio \<and>
   container exAudio = ''mp4'' \<and>
   handleAudioOnlyDownload exInfo (audioOption exAudio) [] =
     StreamResponse
       \<lparr> contentType = ''audio/mpeg'',
         contentDisposition = ustr ''attachment; filename=\"My_Video_Part_1.mp3\"'',
         cacheControl = ''no-cache'',
         contentLengthHeader = None \<rparr>
       (Relay exAudio) \<and>
   forwarded (relayController (relay [Data [0x1A, 0x45 :: nat], Data [0xDF, 0xA3], End])) =
     [[0x1A, 0x45], [0xDF, 0xA3]]"
proof -
  have f: "findItag (infoFormats exInfo) (optItag (audioOption exAudio)) = Some exAudio"
    by (simp add: audioOption_def findItag_examples) (simp add: exAudio_def findItag_examples [simplified exAudio_def])
  have t: "cleanTitle (title exInfo) = ustr ''My_Video_Part_1''"
    by (simp add: exInfo_def cleanTitle_example)
  note c = C10_audio_only_is_forwarded_unchanged [of exInfo "audioOption exAudio" exAudio "[]"
      "[Data [0x1A, 0x45 :: nat], Data [0xDF, 0xA3], End]" "[[0x1A, 0x45 :: nat], [0xDF, 0xA3]]"]
  have "handleAudioOnlyDownload exInfo (audioOption exAudio) [] =
     StreamResponse
       \<lparr> contentType = ''audio/mpeg'',
         contentDisposition = ustr ''attachment; filename=\"My_Video_Part_1.mp3\"'',
         cacheControl = ''no-cache'',
         contentLengthHeader = None \<rparr>
       (Relay exAudio)"
    using c f by (simp add: t) (simp add: disposition_def ustr_def exAudio_def)
  moreover have "forwarded (relayController (relay [Data [0x1A, 0x45 :: nat], Data [0xDF, 0xA3], End])) =
     [[0x1A, 0x45], [0xDF, 0xA3]]"
    using c by simp
  ultimately show ?thesis using f by (simp add: exAudio_def)
qed

section \<open>Mux pipeline: what each event terminates\<close>

lemma mux_snoc: "mux (es @ [e]) = muxHandle (mux es) e"
  by (simp add: mux_def)

lemma mux_cancel:
  "videoStream (mux (es @ [MuxCancel])) = Destroyed"
  "audioStream (mux (es @ [MuxCancel])) = Destroyed"
  "ffmpegProcess (mux (es @ [MuxCancel])) \<noteq> Running"
  by (simp_all add: mux_snoc)

text \<open>
  C3. When the subprocess reports an error, the handler marks the outbound stream as
  failed and terminates nothing: the video stream, the audio stream and the subprocess
  are as they were. Nothing is terminated either when an input stream fails or when the
  subprocess exits with a code other than 0. Only the cancellation by the client
  destroys both streams and kills the subprocess.
\<close>

theorem C3_failure_terminates_nothing:
  "videoStream (mux (es @ [ProcessError e])) = videoStream (mux es) \<and>
   audioStream (mux (es @ [ProcessError e])) = audioStream (mux es) \<and>
   ffmpegProcess (mux (es @ [ProcessError e])) = ffmpegProcess (mux es) \<and>
   videoStream (mux [ProcessError e] :: 'c muxSession) = Live \<and>
   audioStream (mux [ProcessError e] :: 'c muxSession) = Live \<and>
   ffmpegProcess (mux [ProcessError e] :: 'c muxSession) = Running \<and>
   videoStream (mux [ProcessExit 1] :: 'c muxSession) = Live \<and>
   audioStream (mux [ProcessExit 1] :: 'c muxSession) = Live \<and>
   audioStream (mux [VideoError e] :: 'c muxSession) = Live \<and>
   ffmpegProcess (mux [VideoError e] :: 'c muxSession) = Running \<and>
   videoStream (mux [AudioError e] :: 'c muxSession) = Live \<and>
   ffmpegProcess (mux [AudioError e] :: 'c muxSession) = Running \<and>
   videoStream (mux (es @ [MuxCancel])) = Destroyed \<and>
   audioStream (mux (es @ [MuxCancel])) = Destroyed \<and>
   ffmpegProcess (mux (es @ [MuxCancel])) \<noteq> Running"
  by (simp add: mux_snoc) (simp add: mux_def muxStart_def)

section \<open>Structure of the catalog\<close>

lemma mapHas_iff: "mapHas m k \<longleftrightarrow> k \<in> fst ` set m"
  by (simp add: mapHas_def map_of_eq_None_iff)

lemma mapSet_fresh: "k \<notin> fst ` set m \<Longrightarrow> mapSet m k v = m @ [(k, v)]"
  by (induction m) auto

lemma mapSet_keys: "k \<in> fst ` set m \<Longrightarrow> map fst (mapSet m k v) = map fst m"
proof (induction m)
  case Nil
  then show ?case by simp
next
  case (Cons e m)
  obtain k' v' where e: "e = (k', v')" by (cases e)
  show ?case
  proof (cases "k' = k")
    case True
    then show ?thesis by (simp add: e)
  next
    case False
    then have "k \<in> fst ` set m" using Cons.prems by (simp add: e)
    then show ?thesis using Cons.IH False by (simp add: e)
  qed
qed

lemma addCombined_eq:
  "addCombined m f =
     (if combinedQuality f @ ''_combined'' \<in> fst ` set m then m
      else m @ [(combinedQuality f @ ''_combined'', combinedOption f)])"
  by (simp add: addCombined_def Let_def mapHas_iff mapSet_fresh)

lemma addHigh_eq:
  "addHigh a m v =
     (if labelOf v @ ''_high'' \<in> fst ` set m then m
      else m @ [(labelOf v @ ''_high'', highOption a v)])"
  by (simp add: addHigh_def Let_def mapHas_iff mapSet_fresh)

lemma foldl_addCombined_set:
  "(k, v) \<in> set (foldl addCombined m gs) \<Longrightarrow>
   (k, v) \<in> set m \<or> (\<exists>f\<in>set gs. k = combinedQuality f @ ''_combined'' \<and> v = combinedOption f)"
proof (induction gs arbitrary: m)
  case Nil
  then show ?case by simp
next
  case (Cons g gs)
  from Cons.IH [of "addCombined m g"] Cons.prems show ?case
    by (auto simp: addCombined_eq split: if_splits)
qed

lemma foldl_addCombined_distinct:
  "distinct (map fst m) \<Longrightarrow> distinct (map fst (foldl addCombined m gs))"
proof (induction gs arbitrary: m)
  case Nil
  then show ?case by simp
next
  case (Cons g gs)
  have "distinct (map fst (addCombined m g))"
    using Cons.prems by (auto simp: addCombined_eq)
  then show ?case using Cons.IH by simp
qed

lemma combinedPass_set:
  "(k, v) \<in> set (combinedPass fs) \<Longrightarrow>
   \<exists>f\<in>set fs. isCombined f \<and> k = combinedQuality f @ ''_combined'' \<and> v = combinedOption f"
  using foldl_addCombined_set [of k v "[]" "filter isCombined fs"]
  by (auto simp: combinedPass_def)

lemma combinedPass_distinct: "distinct (map fst (combinedPass fs))"
  using foldl_addCombined_distinct [of "[]"] by (simp add: combinedPass_def)

lemma foldl_addHigh_fresh:
  "distinct (map labelOf vs) \<Longrightarrow> \<forall>v\<in>set vs. labelOf v @ ''_high'' \<notin> fst ` set m \<Longrightarrow>
   foldl (addHigh a) m vs = m @ map (\<lambda>v. (labelOf v @ ''_high'', highOption a v)) vs"
proof (induction vs arbitrary: m)
  case Nil
  then show ?case by simp
next
  case (Cons v vs)
  have s: "addHigh a m v = m @ [(labelOf v @ ''_high'', highOption a v)]"
    using Cons.prems by (simp add: addHigh_eq)
  have "labelOf w \<noteq> labelOf v" if "w \<in> set vs" for w
    using that Cons.prems(1) by (simp add: image_iff) metis
  then have "\<forall>w\<in>set vs. labelOf w @ ''_high'' \<notin> fst ` set (addHigh a m v)"
    using Cons.prems(2) by (simp add: s)
  then show ?case using Cons.IH [of "addHigh a m v"] Cons.prems by (simp add: s)
qed

lemma reduceStep_cases:
  "reduceStep acc f = acc \<or>
   reduceStep acc f = filter (\<lambda>g. qualityLabel g \<noteq> qualityLabel f) acc @ [f]"
  by (simp add: reduceStep_def Let_def split: option.splits)

lemma reduceStep_distinct:
  assumes "distinct (map qualityLabel acc)"
  shows "distinct (map qualityLabel (reduceStep acc f))"
proof -
  have "distinct (map qualityLabel (filter (\<lambda>g. qualityLabel g \<noteq> qualityLabel f) acc @ [f]))"
    using assms by (auto simp: distinct_map_filter)
  then show ?thesis using reduceStep_cases [of acc f] assms by auto
qed

lemma reduceStep_set: "set (reduceStep acc f) \<subseteq> insert f (set acc)"
  using reduceStep_cases [of acc f] by auto

lemma foldl_reduceStep_distinct:
  "distinct (map qualityLabel acc) \<Longrightarrow> distinct (map qualityLabel (foldl reduceStep acc gs))"
  by (induction gs arbitrary: acc) (simp_all add: reduceStep_distinct)

lemma foldl_reduceStep_set: "set (foldl reduceStep acc gs) \<subseteq> set acc \<union> set gs"
proof (induction gs arbitrary: acc)
  case Nil
  then show ?case by simp
next
  case (Cons g gs)
  show ?case using Cons.IH [of "reduceStep acc g"] reduceStep_set [of acc g] by auto
qed

lemma videoOnlyFormats_set: "v \<in> set (videoOnlyFormats fs) \<Longrightarrow> v \<in> set fs \<and> isVideoOnly v"
  using foldl_reduceStep_set [of "[]" "filter isVideoOnly fs"] by (auto simp: videoOnlyFormats_def)

lemma videoOnlyFormats_distinct: "distinct (map qualityLabel (videoOnlyFormats fs))"
  using foldl_reduceStep_distinct [of "[]"] by (simp add: videoOnlyFormats_def)

lemma isVideoOnly_label: "isVideoOnly v \<Longrightarrow> qualityLabel v = Some (labelOf v) \<and> labelOf v \<noteq> []"
  by (auto simp: isVideoOnly_def truthy_def labelOf_def split: option.splits)

lemma videoOnlyFormats_distinct_labels: "distinct (map labelOf (videoOnlyFormats fs))"
proof -
  have "inj_on Some (set (map labelOf (videoOnlyFormats fs)))" by simp
  moreover have "map Some (map labelOf (videoOnlyFormats fs)) = map qualityLabel (videoOnlyFormats fs)"
    using videoOnlyFormats_set [of _ fs] isVideoOnly_label by simp
  ultimately show ?thesis
    using videoOnlyFormats_distinct [of fs] by (metis distinct_map)
qed

lemma high_key_not_combined: "q @ ''_high'' \<noteq> q' @ ''_combined''"
proof
  assume "q @ ''_high'' = q' @ ''_combined''"
  then have "last (q @ ''_high'') = last (q' @ ''_combined'')" by (rule arg_cong)
  then show False by simp
qed

lemma audio_key_not_combined: "''audio_only'' \<noteq> q' @ ''_combined''"
proof
  assume "''audio_only'' = q' @ ''_combined''"
  then have "last ''audio_only'' = last (q' @ ''_combined'')" by (rule arg_cong)
  then show False by simp
qed

lemma audio_key_not_high: "''audio_only'' \<noteq> q' @ ''_high''"
proof
  assume "''audio_only'' = q' @ ''_high''"
  then have "last ''audio_only'' = last (q' @ ''_high'')" by (rule arg_cong)
  then show False by simp
qed

lemma combinedPass_keys: "k \<in> fst ` set (combinedPass fs) \<Longrightarrow> \<exists>q. k = q @ ''_combined''"
  using combinedPass_set [of k _ fs] by force

lemma highPass_Some:
  assumes "bestAudioFormat fs = Some a"
  shows "highPass fs (combinedPass fs) = combinedPass fs @ highEntries a (videoOnlyFormats fs)"
proof -
  have "\<forall>v\<in>set (videoOnlyFormats fs). labelOf v @ ''_high'' \<notin> fst ` set (combinedPass fs)"
    using combinedPass_keys [of _ fs] high_key_not_combined by blast
  then show ?thesis
    using foldl_addHigh_fresh [OF videoOnlyFormats_distinct_labels, of fs "combinedPass fs" a] assms
    by (simp add: highPass_def highEntries_def)
qed

lemma allFormats_Some:
  assumes "bestAudioFormat fs = Some a"
  shows "allFormats fs =
    combinedPass fs @ highEntries a (videoOnlyFormats fs) @ [(''audio_only'', audioOption a)]"
proof -
  have "''audio_only'' \<notin> fst ` set (combinedPass fs)"
    using combinedPass_keys [of _ fs] audio_key_not_combined by blast
  moreover have "''audio_only'' \<notin> fst ` set (highEntries a (videoOnlyFormats fs))"
    using audio_key_not_high by (auto simp: highEntries_def)
  ultimately have "''audio_only'' \<notin> fst ` set (combinedPass fs @ highEntries a (videoOnlyFormats fs))"
    by (simp add: image_Un)
  then show ?thesis
    using assms highPass_Some [OF assms] by (simp add: allFormats_def audioPass_def mapSet_fresh)
qed

lemma allFormats_None: "bestAudioFormat fs = None \<Longrightarrow> allFormats fs = combinedPass fs"
  by (simp add: allFormats_def audioPass_def highPass_def)

lemma insertBy_insort_key:
  "(\<And>x y. cmp x y \<le> 0 \<longleftrightarrow> key x \<le> key y) \<Longrightarrow> insertBy cmp x ys = insort_key key x ys"
  by (induction ys) simp_all

lemma sortBy_sort_key:
  assumes "\<And>x y. cmp x y \<le> 0 \<longleftrightarrow> key x \<le> key y"
  shows "sortBy cmp xs = sort_key key xs"
  unfolding sortBy_def sort_key_def
  by (induction xs) (simp_all add: insertBy_insort_key [of cmp key, OF assms])

lemma compareFormats_sortKey: "compareFormats a b \<le> 0 \<longleftrightarrow> sortKey a \<le> sortKey b"
  by (auto simp: compareFormats_def sortKey_def less_eq_prod_def less_prod_def)

lemma compareFormats_zero: "compareFormats a b = 0 \<longleftrightarrow> sortKey a = sortKey b"
  by (auto simp: compareFormats_def sortKey_def)

lemma formats_sort_key: "formats fs = sort_key sortKey (mapValues (allFormats fs))"
  unfolding formats_def by (rule sortBy_sort_key) (rule compareFormats_sortKey)

lemma audioCompare_key: "audioCompare a b \<le> 0 \<longleftrightarrow> - int (audioRate a) \<le> - int (audioRate b)"
  by (simp add: audioCompare_def)

lemma insort_key_snoc:
  "f x \<le> f y \<Longrightarrow> insort_key f x (zs @ [y]) = insort_key f x zs @ [y]"
  by (induction zs) simp_all

lemma sort_key_snoc_max:
  "\<forall>x\<in>set xs. f x \<le> f y \<Longrightarrow> sort_key f (xs @ [y]) = sort_key f xs @ [y]"
  by (induction xs) (simp_all add: insort_key_snoc)

lemma sortKey_top: "sortKey x \<le> (True, 0, True)"
  by (simp add: sortKey_def less_eq_prod_def less_prod_def)

section \<open>The example catalog\<close>

lemma ex_flags:
  "isAudioOnly exAudio" "\<not> isAudioOnly exCombined360" "\<not> isAudioOnly exVideo720"
  "\<not> isAudioOnly exCombined1080" "\<not> isAudioOnly exVideo1080"
  "\<not> isCombined exAudio" "isCombined exCombined360" "\<not> isCombined exVideo720"
  "isCombined exCombined1080" "\<not> isCombined exVideo1080"
  "\<not> isVideoOnly exAudio" "\<not> isVideoOnly exCombined360" "isVideoOnly exVideo720"
  "\<not> isVideoOnly exCombined1080" "isVideoOnly exVideo1080"
  by (simp_all add: isAudioOnly_def isCombined_def isVideoOnly_def truthy_def exAudio_def
      exCombined360_def exVideo720_def exCombined1080_def exVideo1080_def)

lemma ex_labels:
  "combinedQuality exCombined360 = ''360p''" "combinedQuality exCombined1080 = ''1080p''"
  "qualityLabel exVideo720 = Some ''720p''" "qualityLabel exVideo1080 = Some ''1080p''"
  "labelOf exVideo720 = ''720p''" "labelOf exVideo1080 = ''1080p''"
  by (simp_all add: combinedQuality_def labelOf_def exCombined360_def exVideo720_def
      exCombined1080_def exVideo1080_def)

lemma ex_bestAudio: "bestAudioFormat exFormats = Some exAudio"
  by (simp add: bestAudioFormat_def exFormats_def ex_flags sortBy_def)

lemma ex_videoOnly: "videoOnlyFormats exFormats = [exVideo720, exVideo1080]"
  by (simp add: videoOnlyFormats_def exFormats_def ex_flags reduceStep_def ex_labels)

lemma ex_combinedPass:
  "combinedPass exFormats =
     [(''360p_combined'', combinedOption exCombined360),
      (''1080p_combined'', combinedOption exCombined1080)]"
  by (simp add: combinedPass_def exFormats_def ex_flags addCombined_def mapHas_def ex_labels)

lemma ex_allFormats:
  "allFormats exFormats =
     [(''360p_combined'', combinedOption exCombined360),
      (''1080p_combined'', combinedOption exCombined1080),
      (''720p_high'', highOption exAudio exVideo720),
      (''1080p_high'', highOption exAudio exVideo1080),
      (''audio_only'', audioOption exAudio)]"
  by (simp add: allFormats_Some [OF ex_bestAudio] ex_videoOnly ex_combinedPass highEntries_def
      ex_labels)

lemma ex_fields:
  "optQuality (combinedOption exCombined360) = ''360p''"
  "resolution (combinedOption exCombined360) = 360"
  "\<not> isHighQuality (combinedOption exCombined360)"
  "optQuality (combinedOption exCombined1080) = ''1080p''"
  "resolution (combinedOption exCombined1080) = 1080"
  "\<not> isHighQuality (combinedOption exCombined1080)"
  "optQuality (highOption exAudio exVideo720) = ''720p''"
  "resolution (highOption exAudio exVideo720) = 720"
  "\<not> isHighQuality (highOption exAudio exVideo720)"
  "optQuality (highOption exAudio exVideo1080) = ''1080p (High Quality)''"
  "resolution (highOption exAudio exVideo1080) = 1080"
  "isHighQuality (highOption exAudio exVideo1080)"
  "optQuality (audioOption exAudio) = ''Audio Only''"
  "resolution (audioOption exAudio) = 0"
  "\<not> isHighQuality (audioOption exAudio)"
  by (simp_all add: combinedOption_def highOption_def audioOption_def Let_def ex_labels
      extractResolution_examples)

lemma ex_formats:
  "formats exFormats =
     [highOption exAudio exVideo1080, combinedOption exCombined1080,
      highOption exAudio exVideo720, combinedOption exCombined360, audioOption exAudio]"
  by (simp add: formats_def ex_allFormats mapValues_def sortBy_def compareFormats_def ex_fields)

section \<open>The high-quality flag\<close>

lemma mset_formats: "mset (formats fs) = mset (mapValues (allFormats fs))"
  by (simp add: formats_sort_key)

lemma set_formats: "set (formats fs) = snd ` set (allFormats fs)"
  by (simp add: formats_sort_key mapValues_def)

lemma mapValues_allFormats:
  "mapValues (allFormats fs) =
     (case bestAudioFormat fs of
        None \<Rightarrow> map snd (combinedPass fs)
      | Some a \<Rightarrow> map snd (combinedPass fs) @ map (highOption a) (videoOnlyFormats fs) @
                  [audioOption a])"
  by (simp add: mapValues_def allFormats_None allFormats_Some highEntries_def comp_def
      split: option.splits)

lemma formats_cases:
  assumes "x \<in> set (formats fs)"
  shows "(\<exists>f\<in>set fs. isCombined f \<and> x = combinedOption f) \<or>
         (\<exists>a v. bestAudioFormat fs = Some a \<and> v \<in> set (videoOnlyFormats fs) \<and> x = highOption a v) \<or>
         (\<exists>a. bestAudioFormat fs = Some a \<and> x = audioOption a)"
proof -
  have "x \<in> set (mapValues (allFormats fs))"
    using assms by (simp add: set_formats mapValues_def)
  then consider "x \<in> snd ` set (combinedPass fs)"
    | a where "bestAudioFormat fs = Some a" "x \<in> highOption a ` set (videoOnlyFormats fs)"
    | a where "bestAudioFormat fs = Some a" "x = audioOption a"
    by (auto simp: mapValues_allFormats split: option.splits)
  then show ?thesis
  proof cases
    case 1
    then obtain k where "(k, x) \<in> set (combinedPass fs)" by auto
    then show ?thesis using combinedPass_set by blast
  next
    case 2
    then show ?thesis by blast
  next
    case 3
    then show ?thesis by blast
  qed
qed

lemma pathKind_simps:
  "pathKind (combinedOption f) = PreMuxed" "pathKind (highOption a v) = Split"
  "pathKind (audioOption a) = AudioOnly"
  by (simp_all add: pathKind_def combinedOption_def highOption_def audioOption_def Let_def)

lemma isHighQuality_simps:
  "\<not> isHighQuality (combinedOption f)"
  "isHighQuality (highOption a v) = (1080 \<le> extractResolution (labelOf v))"
  "\<not> isHighQuality (audioOption a)"
  by (simp_all add: combinedOption_def highOption_def audioOption_def Let_def)

text \<open>
  C1. Every option of the output that is served by the split path was built by
  \<open>highOption\<close> from a video-only candidate of the input and the best audio rendition;
  its resolution is the number parsed from the candidate's quality label, and its
  \<open>isHighQuality\<close> is true exactly when that resolution is at least 1080. Every
  pre-muxed option was built by \<open>combinedOption\<close> from a rendition with video and audio;
  its \<open>isHighQuality\<close> is false whatever its resolution is.
\<close>

theorem C1_high_quality_flag:
  "(\<forall>x\<in>set (formats fs). pathKind x = Split \<longrightarrow>
      (\<exists>a v. bestAudioFormat fs = Some a \<and> v \<in> set fs \<and> isVideoOnly v \<and> x = highOption a v \<and>
             resolution x = extractResolution (labelOf v)) \<and>
      isHighQuality x = (1080 \<le> resolution x)) \<and>
   (\<forall>x\<in>set (formats fs). pathKind x = PreMuxed \<longrightarrow>
      (\<exists>f\<in>set fs. isCombined f \<and> x = combinedOption f \<and>
             resolution x = extractResolution (combinedQuality f)) \<and>
      \<not> isHighQuality x)"
proof (intro conjI ballI impI)
  fix x assume x: "x \<in> set (formats fs)" and k: "pathKind x = Split"
  from formats_cases [OF x] k obtain a v where
    av: "bestAudioFormat fs = Some a" "v \<in> set (videoOnlyFormats fs)" "x = highOption a v"
    by (auto simp: pathKind_simps)
  then show "\<exists>a v. bestAudioFormat fs = Some a \<and> v \<in> set fs \<and> isVideoOnly v \<and> x = highOption a v \<and>
             resolution x = extractResolution (labelOf v)"
    using videoOnlyFormats_set [of v fs] resolution_highOption by blast
  show "isHighQuality x = (1080 \<le> resolution x)"
    using av by (simp add: isHighQuality_simps resolution_highOption)
next
  fix x assume x: "x \<in> set (formats fs)" and k: "pathKind x = PreMuxed"
  from formats_cases [OF x] k obtain f where
    f: "f \<in> set fs" "isCombined f" "x = combinedOption f"
    by (auto simp: pathKind_simps)
  then show "\<exists>f\<in>set fs. isCombined f \<and> x = combinedOption f \<and>
             resolution x = extractResolution (combinedQuality f)"
    using resolution_combinedOption by blast
  show "\<not> isHighQuality x"
    using f by (simp add: isHighQuality_simps)
qed

theorem C1_high_quality_flag_witness:
  "highOption exAudio exVideo1080 \<in> set (formats exFormats) \<and>
   pathKind (highOption exAudio exVideo1080) = Split \<and>
   resolution (highOption exAudio exVideo1080) = 1080 \<and>
   isHighQuality (highOption exAudio exVideo1080) \<and>
   highOption exAudio exVideo720 \<in> set (formats exFormats) \<and>
   pathKind (highOption exAudio exVideo720) = Split \<and>
   resolution (highOption exAudio exVideo720) = 720 \<and>
   \<not> isHighQuality (highOption exAudio exVideo720) \<and>
   combinedOption exCombined1080 \<in> set (formats exFormats) \<and>
   pathKind (combinedOption exCombined1080) = PreMuxed \<and>
   resolution (combinedOption exCombined1080) = 1080 \<and>
   \<not> isHighQuality (combinedOption exCombined1080)"
proof -
  have m: "highOption exAudio exVideo1080 \<in> set (formats exFormats)"
    "highOption exAudio exVideo720 \<in> set (formats exFormats)"
    "combinedOption exCombined1080 \<in> set (formats exFormats)"
    by (simp_all add: ex_formats)
  note c = C1_high_quality_flag [of exFormats]
  have "isHighQuality (highOption exAudio exVideo1080) =
      (1080 \<le> resolution (highOption exAudio exVideo1080))"
    using c m(1) pathKind_simps(2) by blast
  moreover have "isHighQuality (highOption exAudio exVideo720) =
      (1080 \<le> resolution (highOption exAudio exVideo720))"
    using c m(2) pathKind_simps(2) by blast
  moreover have "\<not> isHighQuality (combinedOption exCombined1080)"
    using c m(3) pathKind_simps(1) by blast
  ultimately show ?thesis
    using m by (simp add: pathKind_simps ex_fields)
qed

section \<open>Uniqueness of the catalog keys\<close>

lemma scanResolution_append:
  "scanResolution acc q \<noteq> 0 \<Longrightarrow> scanResolution acc (q @ s) = scanResolution acc q"
  by (induction q arbitrary: acc) auto

lemma extractResolution_append:
  "1080 \<le> extractResolution q \<Longrightarrow> extractResolution (q @ s) = extractResolution q"
  using scanResolution_append [of "[]" q s] by (simp add: extractResolution_def)

lemma display_inj: "display q1 = display q2 \<Longrightarrow> q1 = q2"
proof (cases "1080 \<le> extractResolution q1"; cases "1080 \<le> extractResolution q2")
  assume "display q1 = display q2" "1080 \<le> extractResolution q1" "\<not> 1080 \<le> extractResolution q2"
  then have "q2 = q1 @ '' (High Quality)''" by (simp add: display_def)
  then have "extractResolution q2 = extractResolution q1"
    using \<open>1080 \<le> extractResolution q1\<close> by (simp add: extractResolution_append)
  then show ?thesis
    using \<open>1080 \<le> extractResolution q1\<close> \<open>\<not> 1080 \<le> extractResolution q2\<close> by simp
next
  assume "display q1 = display q2" "\<not> 1080 \<le> extractResolution q1" "1080 \<le> extractResolution q2"
  then have "q1 = q2 @ '' (High Quality)''" by (simp add: display_def)
  then have "extractResolution q1 = extractResolution q2"
    using \<open>1080 \<le> extractResolution q2\<close> by (simp add: extractResolution_append)
  then show ?thesis
    using \<open>\<not> 1080 \<le> extractResolution q1\<close> \<open>1080 \<le> extractResolution q2\<close> by simp
qed (simp_all add: display_def)

lemma optQuality_simps:
  "optQuality (combinedOption f) = combinedQuality f"
  "optQuality (highOption a v) = display (labelOf v)"
  "optQuality (audioOption a) = ''Audio Only''"
  by (simp_all add: combinedOption_def highOption_def audioOption_def Let_def display_def)

lemma foldl_addCombined_entries:
  "\<forall>e\<in>set m. fst e = optQuality (snd e) @ ''_combined'' \<Longrightarrow>
   \<forall>e\<in>set (foldl addCombined m gs). fst e = optQuality (snd e) @ ''_combined''"
proof (induction gs arbitrary: m)
  case Nil
  then show ?case by simp
next
  case (Cons g gs)
  have "\<forall>e\<in>set (addCombined m g). fst e = optQuality (snd e) @ ''_combined''"
    using Cons.prems by (simp add: addCombined_eq optQuality_simps)
  then show ?case using Cons.IH by simp
qed

lemma combinedPass_entries:
  "e \<in> set (combinedPass fs) \<Longrightarrow>
   fst e = optQuality (snd e) @ ''_combined'' \<and> pathKind (snd e) = PreMuxed"
proof -
  assume e: "e \<in> set (combinedPass fs)"
  have "fst e = optQuality (snd e) @ ''_combined''"
    using foldl_addCombined_entries [of "[]" "filter isCombined fs"] e
    by (simp add: combinedPass_def)
  moreover have "pathKind (snd e) = PreMuxed"
    using combinedPass_set [of "fst e" "snd e" fs] e by (auto simp: pathKind_simps)
  ultimately show ?thesis by simp
qed

lemma distinct_map_comp: "distinct (map (\<lambda>x. g (f x)) xs) \<Longrightarrow> distinct (map f xs)"
  by (induction xs) auto

lemma combined_pairs_distinct: "distinct (map catalogPair (map snd (combinedPass fs)))"
proof -
  have eq: "map fst (combinedPass fs) =
      map (\<lambda>e. fst (catalogPair (snd e)) @ ''_combined'') (combinedPass fs)"
    using combinedPass_entries [of _ fs] by (simp add: catalogPair_def)
  have "distinct (map (\<lambda>e. fst (catalogPair (snd e)) @ ''_combined'') (combinedPass fs))"
    by (simp only: eq [symmetric] combinedPass_distinct)
  then have "distinct (map (\<lambda>e. catalogPair (snd e)) (combinedPass fs))"
    by (rule distinct_map_comp [where g = "\<lambda>p. fst p @ ''_combined''"])
  then show ?thesis by (simp add: comp_def)
qed

lemma high_pairs_distinct: "distinct (map catalogPair (map (highOption a) (videoOnlyFormats fs)))"
proof -
  have "inj_on display (set (map labelOf (videoOnlyFormats fs)))"
    by (rule inj_onI) (rule display_inj)
  then have "distinct (map display (map labelOf (videoOnlyFormats fs)))"
    using videoOnlyFormats_distinct_labels [of fs] by (simp only: distinct_map)
  then have "distinct (map (\<lambda>v. fst (catalogPair (highOption a v))) (videoOnlyFormats fs))"
    by (simp add: catalogPair_def optQuality_simps comp_def)
  then have "distinct (map (\<lambda>v. catalogPair (highOption a v)) (videoOnlyFormats fs))"
    by (rule distinct_map_comp)
  then show ?thesis by (simp add: comp_def)
qed

lemma values_pairs_distinct: "distinct (map catalogPair (mapValues (allFormats fs)))"
proof (cases "bestAudioFormat fs")
  case None
  then show ?thesis using combined_pairs_distinct by (simp add: mapValues_allFormats)
next
  case (Some a)
  have c: "\<forall>p\<in>set (map catalogPair (map snd (combinedPass fs))). snd p = PreMuxed"
    using combinedPass_entries [of _ fs] by (auto simp: catalogPair_def)
  have h: "\<forall>p\<in>set (map catalogPair (map (highOption a) (videoOnlyFormats fs))). snd p = Split"
    by (auto simp: catalogPair_def pathKind_simps)
  have a: "snd (catalogPair (audioOption a)) = AudioOnly"
    by (simp add: catalogPair_def pathKind_simps)
  have "set (map catalogPair (map snd (combinedPass fs))) \<inter>
      set (map catalogPair (map (highOption a) (videoOnlyFormats fs))) = {}"
    using c h by fastforce
  moreover have "catalogPair (audioOption a) \<notin> set (map catalogPair (map snd (combinedPass fs)))"
    using c a by fastforce
  moreover have "catalogPair (audioOption a) \<notin>
      set (map catalogPair (map (highOption a) (videoOnlyFormats fs)))"
    using h a by fastforce
  ultimately show ?thesis
    using Some combined_pairs_distinct [of fs] high_pairs_distinct [of a fs]
    by (simp add: mapValues_allFormats)
qed

lemma formats_pairs_distinct: "distinct (map catalogPair (formats fs))"
proof -
  have "mset (map catalogPair (formats fs)) = mset (map catalogPair (mapValues (allFormats fs)))"
    by (simp add: mset_formats)
  then show ?thesis
    using values_pairs_distinct [of fs] by (metis mset_eq_imp_distinct_iff)
qed

lemma allFormats_distinct: "distinct (map fst (allFormats fs))"
proof (cases "bestAudioFormat fs")
  case None
  then show ?thesis by (simp add: allFormats_None combinedPass_distinct)
next
  case (Some a)
  have k: "map fst (highEntries a (videoOnlyFormats fs)) =
      map (\<lambda>q. q @ ''_high'') (map labelOf (videoOnlyFormats fs))"
    by (simp add: highEntries_def comp_def)
  have "distinct (map fst (highEntries a (videoOnlyFormats fs)))"
    unfolding k using videoOnlyFormats_distinct_labels [of fs] by (simp add: distinct_map inj_on_def)
  moreover have "set (map fst (combinedPass fs)) \<inter> set (map fst (highEntries a (videoOnlyFormats fs))) = {}"
    using combinedPass_keys [of _ fs] high_key_not_combined by (fastforce simp: highEntries_def)
  moreover have "''audio_only'' \<notin> set (map fst (combinedPass fs))"
    using combinedPass_keys [of _ fs] audio_key_not_combined by fastforce
  moreover have "''audio_only'' \<notin> set (map fst (highEntries a (videoOnlyFormats fs)))"
    using audio_key_not_high by (fastforce simp: highEntries_def)
  ultimately show ?thesis
    using combinedPass_distinct [of fs] by (simp add: allFormats_Some [OF Some])
qed

lemma allFormats_entries:
  assumes "(k, x) \<in> set (allFormats fs)"
  shows "(pathKind x = PreMuxed \<and> k = optQuality x @ ''_combined'') \<or>
         (pathKind x = Split \<and> (\<exists>q. k = q @ ''_high'' \<and> optQuality x = display q)) \<or>
         (pathKind x = AudioOnly \<and> k = ''audio_only'')"
proof (cases "bestAudioFormat fs")
  case None
  then show ?thesis using assms combinedPass_entries [of "(k, x)" fs] by (simp add: allFormats_None)
next
  case (Some a)
  then consider "(k, x) \<in> set (combinedPass fs)"
    | "(k, x) \<in> set (highEntries a (videoOnlyFormats fs))"
    | "(k, x) = (''audio_only'', audioOption a)"
    using assms by (auto simp: allFormats_Some)
  then show ?thesis
  proof cases
    case 1
    then show ?thesis using combinedPass_entries [of "(k, x)" fs] by simp
  next
    case 2
    then show ?thesis by (auto simp: highEntries_def pathKind_simps optQuality_simps)
  next
    case 3
    then show ?thesis by (simp add: pathKind_simps)
  qed
qed

lemma audio_only_count: "length (filter (\<lambda>x. pathKind x = AudioOnly) (formats fs)) \<le> 1"
proof -
  let ?P = "\<lambda>x. pathKind x = AudioOnly"
  have "mset (filter ?P (formats fs)) = mset (filter ?P (mapValues (allFormats fs)))"
    by (simp add: mset_formats)
  then have l: "length (filter ?P (formats fs)) = length (filter ?P (mapValues (allFormats fs)))"
    by (rule mset_eq_length)
  have c: "filter ?P (map snd (combinedPass fs)) = []"
    using combinedPass_entries [of _ fs] by (auto simp: filter_empty_conv)
  have h: "filter ?P (map (highOption a) (videoOnlyFormats fs)) = []" for a
    by (auto simp: filter_empty_conv pathKind_simps)
  show ?thesis
    unfolding l by (cases "bestAudioFormat fs") (simp_all add: mapValues_allFormats c h)
qed

text \<open>
  C2. The keys of the catalog are pairwise different, and the output holds the values of
  the catalog, each as often as the catalog does. The key of a pre-muxed option is its
  quality followed by \<open>_combined\<close>; the key of a split option is its raw quality label
  followed by \<open>_high\<close>, and its quality is that label, marked when the resolution is at
  least 1080; the key of the audio-only option is \<open>audio_only\<close>. Hence no two options of
  the output agree in quality and path, and at most one of them is the audio-only option.
\<close>

theorem C2_catalog_keys_unique:
  "distinct (map fst (allFormats fs)) \<and>
   mset (formats fs) = mset (mapValues (allFormats fs)) \<and>
   (\<forall>(k, x)\<in>set (allFormats fs).
      (pathKind x = PreMuxed \<and> k = optQuality x @ ''_combined'') \<or>
      (pathKind x = Split \<and>
         (\<exists>q. k = q @ ''_high'' \<and>
              optQuality x = (if 1080 \<le> extractResolution q then q @ '' (High Quality)'' else q))) \<or>
      (pathKind x = AudioOnly \<and> k = ''audio_only'')) \<and>
   distinct (map (\<lambda>x. (optQuality x, pathKind x)) (formats fs)) \<and>
   length (filter (\<lambda>x. pathKind x = AudioOnly) (formats fs)) \<le> 1"
proof (intro conjI)
  show "distinct (map fst (allFormats fs))" by (rule allFormats_distinct)
  show "mset (formats fs) = mset (mapValues (allFormats fs))" by (rule mset_formats)
  show "\<forall>(k, x)\<in>set (allFormats fs).
      (pathKind x = PreMuxed \<and> k = optQuality x @ ''_combined'') \<or>
      (pathKind x = Split \<and>
         (\<exists>q. k = q @ ''_high'' \<and>
              optQuality x = (if 1080 \<le> extractResolution q then q @ '' (High Quality)'' else q))) \<or>
      (pathKind x = AudioOnly \<and> k = ''audio_only'')"
    using allFormats_entries [of _ _ fs] unfolding display_def by blast
  show "distinct (map (\<lambda>x. (optQuality x, pathKind x)) (formats fs))"
    using formats_pairs_distinct [of fs] by (simp add: catalogPair_def [abs_def])
  show "length (filter (\<lambda>x. pathKind x = AudioOnly) (formats fs)) \<le> 1"
    by (rule audio_only_count)
qed

theorem C2_catalog_keys_unique_witness:
  "(''1080p_high'', highOption exAudio exVideo1080) \<in> set (allFormats exFormats) \<and>
   pathKind (highOption exAudio exVideo1080) = Split \<and>
   optQuality (highOption exAudio exVideo1080) = ''1080p (High Quality)'' \<and>
   (''1080p_combined'', combinedOption exCombined1080) \<in> set (allFormats exFormats) \<and>
   pathKind (combinedOption exCombined1080) = PreMuxed \<and>
   optQuality (combinedOption exCombined1080) = ''1080p'' \<and>
   map fst (allFormats exFormats) =
     [''360p_combined'', ''1080p_combined'', ''720p_high'', ''1080p_high'', ''audio_only''] \<and>
   distinct (map fst (allFormats exFormats)) \<and>
   map (\<lambda>x. (optQuality x, pathKind x)) (formats exFormats) =
     [(''1080p (High Quality)'', Split), (''1080p'', PreMuxed), (''720p'', Split),
      (''360p'', PreMuxed), (''Audio Only'', AudioOnly)] \<and>
   length (filter (\<lambda>x. pathKind x = AudioOnly) (formats exFormats)) = 1"
proof -
  note c = C2_catalog_keys_unique [of exFormats]
  have m: "(''1080p_high'', highOption exAudio exVideo1080) \<in> set (allFormats exFormats)"
    "(''1080p_combined'', combinedOption exCombined1080) \<in> set (allFormats exFormats)"
    by (simp_all add: ex_allFormats)
  have "pathKind (highOption exAudio exVideo1080) = Split"
    using c m(1) by (auto simp: pathKind_simps)
  moreover have "pathKind (combinedOption exCombined1080) = PreMuxed"
    using c m(2) by (auto simp: pathKind_simps)
  moreover have "distinct (map fst (allFormats exFormats))"
    using c by simp
  ultimately show ?thesis
    using m by (simp add: ex_fields) (simp add: ex_allFormats ex_formats ex_fields pathKind_simps)
qed

section \<open>Ranking\<close>

lemma audio_quality_not_high: "q @ '' (High Quality)'' \<noteq> ''Audio Only''"
proof
  assume "q @ '' (High Quality)'' = ''Audio Only''"
  then have "last (q @ '' (High Quality)'') = last ''Audio Only''" by (rule arg_cong)
  then show False by simp
qed

lemma audio_quality_invariant:
  assumes "x \<in> set (formats fs)" "optQuality x = ''Audio Only''"
  shows "resolution x = 0 \<and> \<not> isHighQuality x"
  using formats_cases [OF assms(1)]
proof (elim disjE bexE exE conjE)
  fix f assume "x = combinedOption f"
  then show ?thesis
    using assms(2)
    by (simp add: isHighQuality_simps resolution_combinedOption optQuality_simps
        extractResolution_examples)
next
  fix a v assume x: "x = highOption a v"
  then have "display (labelOf v) = ''Audio Only''"
    using assms(2) by (simp add: optQuality_simps)
  then have "labelOf v = ''Audio Only''"
    using audio_quality_not_high [of "labelOf v"] by (simp add: display_def split: if_splits)
  then show ?thesis
    using x by (simp add: isHighQuality_simps resolution_highOption extractResolution_examples)
next
  fix a assume "x = audioOption a"
  then show ?thesis by (simp add: audioOption_def)
qed

lemma sorted_formats: "sorted_wrt (\<lambda>x y. sortKey x \<le> sortKey y) (formats fs)"
  using sorted_sort_key [of sortKey "mapValues (allFormats fs)"]
  by (simp add: formats_sort_key sorted_map)

lemma formats_descending: "sorted_wrt (\<lambda>x y. resolution y \<le> resolution x) (formats fs)"
proof (rule sorted_wrt_mono_rel [OF _ sorted_formats])
  fix x y assume "x \<in> set (formats fs)" "y \<in> set (formats fs)" "sortKey x \<le> sortKey y"
  then show "resolution y \<le> resolution x"
    using audio_quality_invariant [of y fs]
    by (auto simp: sortKey_def less_eq_prod_def less_prod_def)
qed

lemma formats_high_first:
  "sorted_wrt (\<lambda>x y. resolution x = resolution y \<and> isHighQuality y \<longrightarrow> isHighQuality x)
     (formats fs)"
proof (rule sorted_wrt_mono_rel [OF _ sorted_formats])
  fix x y assume "x \<in> set (formats fs)" "y \<in> set (formats fs)" "sortKey x \<le> sortKey y"
  then show "resolution x = resolution y \<and> isHighQuality y \<longrightarrow> isHighQuality x"
    using audio_quality_invariant [of y fs]
    by (auto simp: sortKey_def less_eq_prod_def less_prod_def)
qed

lemma formats_stable:
  "filter (\<lambda>y. compareFormats x y = 0) (formats fs) =
   filter (\<lambda>y. compareFormats x y = 0) (mapValues (allFormats fs))"
proof -
  have "(\<lambda>y. compareFormats x y = 0) = (\<lambda>y. sortKey y = sortKey x)"
    by (auto simp: compareFormats_zero)
  then show ?thesis
    by (simp add: formats_sort_key sort_key_stable)
qed

lemma formats_audio_last:
  assumes "bestAudioFormat fs = Some a"
  shows "formats fs =
    sortBy compareFormats (map snd (combinedPass fs) @ map (highOption a) (videoOnlyFormats fs)) @
    [audioOption a]"
proof -
  let ?xs = "map snd (combinedPass fs) @ map (highOption a) (videoOnlyFormats fs)"
  have k: "sortKey (audioOption a) = (True, 0, True)"
    by (simp add: sortKey_def audioOption_def)
  have "formats fs = sort_key sortKey (?xs @ [audioOption a])"
    using assms by (simp add: formats_sort_key mapValues_allFormats)
  also have "\<dots> = sort_key sortKey ?xs @ [audioOption a]"
    by (rule sort_key_snoc_max) (simp add: k sortKey_top)
  also have "sort_key sortKey ?xs = sortBy compareFormats ?xs"
    by (rule sortBy_sort_key [symmetric]) (rule compareFormats_sortKey)
  finally show ?thesis .
qed

text \<open>
  C6. The output is the catalog's values rearranged. When a best audio rendition exists
  the audio-only option is the last element. The resolutions never increase along the
  output; of two options with the same resolution a marked one never comes after an
  unmarked one; the whole output is ordered by the comparator, and the options the
  comparator ranks equal to any given option keep the order in which they were inserted.
\<close>

theorem C6_ranking:
  "(bestAudioFormat fs = Some a \<longrightarrow> formats fs \<noteq> [] \<and> last (formats fs) = audioOption a) \<and>
   mset (formats fs) = mset (mapValues (allFormats fs)) \<and>
   sorted_wrt (\<lambda>x y. resolution y \<le> resolution x) (formats fs) \<and>
   sorted_wrt (\<lambda>x y. resolution x = resolution y \<and> isHighQuality y \<longrightarrow> isHighQuality x)
     (formats fs) \<and>
   sorted_wrt (\<lambda>x y. compareFormats x y \<le> 0) (formats fs) \<and>
   filter (\<lambda>y. compareFormats x y = 0) (formats fs) =
     filter (\<lambda>y. compareFormats x y = 0) (mapValues (allFormats fs))"
proof (intro conjI impI)
  assume "bestAudioFormat fs = Some a"
  then show "formats fs \<noteq> []" "last (formats fs) = audioOption a"
    using formats_audio_last [of fs a] by simp_all
next
  show "mset (formats fs) = mset (mapValues (allFormats fs))" by (rule mset_formats)
  show "sorted_wrt (\<lambda>x y. resolution y \<le> resolution x) (formats fs)"
    by (rule formats_descending)
  show "sorted_wrt (\<lambda>x y. resolution x = resolution y \<and> isHighQuality y \<longrightarrow> isHighQuality x)
     (formats fs)"
    by (rule formats_high_first)
  show "sorted_wrt (\<lambda>x y. compareFormats x y \<le> 0) (formats fs)"
    using sorted_formats [of fs] by (simp add: compareFormats_sortKey)
  show "filter (\<lambda>y. compareFormats x y = 0) (formats fs) =
     filter (\<lambda>y. compareFormats x y = 0) (mapValues (allFormats fs))"
    by (rule formats_stable)
qed

theorem C6_ranking_witness:
  "bestAudioFormat exFormats = Some exAudio \<and>
   mapValues (allFormats exFormats) =
     [combinedOption exCombined360, combinedOption exCombined1080,
      highOption exAudio exVideo720, highOption exAudio exVideo1080, audioOption exAudio] \<and>
   formats exFormats =
     [highOption exAudio exVideo1080, combinedOption exCombined1080,
      highOption exAudio exVideo720, combinedOption exCombined360, audioOption exAudio] \<and>
   last (formats exFormats) = audioOption exAudio \<and>
   map resolution (formats exFormats) = [1080, 1080, 720, 360, 0] \<and>
   map isHighQuality (formats exFormats) = [True, False, False, False, False] \<and>
   resolution (highOption exAudio exVideo1080) = resolution (combinedOption exCombined1080) \<and>
   isHighQuality (highOption exAudio exVideo1080)"
proof -
  have "last (formats exFormats) = audioOption exAudio"
    using C6_ranking [of exFormats exAudio] ex_bestAudio by simp
  then show ?thesis
    by (simp add: ex_bestAudio ex_allFormats ex_formats mapValues_def ex_fields)
qed

section \<open>Selection of the split candidates and of the best audio rendition\<close>

text \<open>
  The candidates are video-only \<open>mp4\<close> renditions with a label, one for each label;
  where every candidate of a label has a bitrate, the kept one has the highest, and is
  the first of those that have it. The best audio rendition has the highest audio
  bitrate of the audio-only renditions, an undefined one counting as 0, and is the first
  of those that have it. Without an audio-only rendition the catalog holds pre-muxed
  options only.
\<close>

lemma filter_hd_find: "filter P xs = a # r \<Longrightarrow> find P xs = Some a"
  by (induction xs) (auto split: if_splits)

lemma find_filter_conj: "find (\<lambda>b. P b \<and> Q b) xs = find Q (filter P xs)"
  by (induction xs) auto

lemma bestAudioFormat_sort_key:
  "bestAudioFormat fs =
     (case sort_key (\<lambda>f. - int (audioRate f)) (filter isAudioOnly fs) of
        [] \<Rightarrow> None | a # _ \<Rightarrow> Some a)"
  unfolding bestAudioFormat_def
  by (simp add: sortBy_sort_key [of audioCompare "\<lambda>f. - int (audioRate f)", OF audioCompare_key])

lemma bestAudioFormat_None: "bestAudioFormat fs = None \<longleftrightarrow> (\<forall>b\<in>set fs. \<not> isAudioOnly b)"
proof -
  let ?ys = "sort_key (\<lambda>f. - int (audioRate f)) (filter isAudioOnly fs)"
  have "bestAudioFormat fs = None \<longleftrightarrow> ?ys = []"
    by (simp add: bestAudioFormat_sort_key split: list.splits)
  also have "\<dots> \<longleftrightarrow> set ?ys = {}" by (simp only: set_empty)
  also have "\<dots> \<longleftrightarrow> (\<forall>b\<in>set fs. \<not> isAudioOnly b)" by auto
  finally show ?thesis .
qed

lemma bestAudioFormat_Some:
  assumes "bestAudioFormat fs = Some a"
  shows "a \<in> set fs" "isAudioOnly a"
    "\<forall>b\<in>set fs. isAudioOnly b \<longrightarrow> audioRate b \<le> audioRate a"
    "find (\<lambda>b. isAudioOnly b \<and> audioRate b = audioRate a) fs = Some a"
proof -
  let ?k = "\<lambda>f. - int (audioRate f)"
  let ?xs = "filter isAudioOnly fs"
  let ?ys = "sort_key ?k ?xs"
  obtain r where ys: "?ys = a # r"
    using assms by (simp add: bestAudioFormat_sort_key split: list.splits)
  have "a \<in> set ?ys" by (simp add: ys)
  then show a: "a \<in> set fs" "isAudioOnly a" by simp_all
  have "sorted (map ?k ?ys)" by (rule sorted_sort_key)
  then have "\<forall>b\<in>set r. ?k a \<le> ?k b" by (simp add: ys)
  moreover have "set ?xs = insert a (set r)"
    using arg_cong [OF ys, of set] by simp
  ultimately have "\<forall>b\<in>set ?xs. ?k a \<le> ?k b" by simp
  then show "\<forall>b\<in>set fs. isAudioOnly b \<longrightarrow> audioRate b \<le> audioRate a" by simp
  have "filter (\<lambda>y. ?k y = ?k a) ?ys = filter (\<lambda>y. ?k y = ?k a) ?xs"
    by (rule sort_key_stable)
  then have "filter (\<lambda>y. ?k y = ?k a) ?xs = a # filter (\<lambda>y. ?k y = ?k a) r"
    by (simp add: ys)
  then have "find (\<lambda>y. ?k y = ?k a) ?xs = Some a" by (rule filter_hd_find)
  then show "find (\<lambda>b. isAudioOnly b \<and> audioRate b = audioRate a) fs = Some a"
    by (simp add: find_filter_conj)
qed

lemma no_audio_only_combined:
  "\<forall>b\<in>set fs. \<not> isAudioOnly b \<Longrightarrow> allFormats fs = combinedPass fs"
  using bestAudioFormat_None [of fs] by (simp add: allFormats_None)

lemma no_audio_only_premuxed:
  assumes "\<forall>b\<in>set fs. \<not> isAudioOnly b" "x \<in> set (formats fs)"
  shows "pathKind x = PreMuxed"
  using formats_cases [OF assms(2)] bestAudioFormat_None [of fs] assms(1)
  by (auto simp: pathKind_simps)

lemma reduceStep_None:
  "find (\<lambda>g. qualityLabel g = qualityLabel f) acc = None \<Longrightarrow> reduceStep acc f = acc @ [f]"
proof -
  assume n: "find (\<lambda>g. qualityLabel g = qualityLabel f) acc = None"
  then have "\<forall>g\<in>set acc. qualityLabel g \<noteq> qualityLabel f" by (auto simp: find_None_iff)
  then have "filter (\<lambda>g. qualityLabel g \<noteq> qualityLabel f) acc = acc" by simp
  then show ?thesis using n by (simp add: reduceStep_def Let_def)
qed

lemma reduceStep_Some:
  "find (\<lambda>g. qualityLabel g = qualityLabel f) acc = Some e \<Longrightarrow>
   reduceStep acc f =
     (if bitrateGreater (bitrate f) (bitrate e)
      then filter (\<lambda>g. qualityLabel g \<noteq> qualityLabel f) acc @ [f] else acc)"
  by (simp add: reduceStep_def Let_def)

lemma reduceStep_labels:
  "qualityLabel ` set (reduceStep acc f) = insert (qualityLabel f) (qualityLabel ` set acc)"
proof (cases "find (\<lambda>g. qualityLabel g = qualityLabel f) acc")
  case None
  then show ?thesis by (simp add: reduceStep_None)
next
  case (Some e)
  then have e: "e \<in> set acc" "qualityLabel e = qualityLabel f"
    by (auto simp: find_Some_iff)
  show ?thesis
  proof (cases "bitrateGreater (bitrate f) (bitrate e)")
    case True
    then show ?thesis using Some by (auto simp: reduceStep_Some)
  next
    case False
    have "qualityLabel f \<in> qualityLabel ` set acc"
      using e by (metis imageI)
    then show ?thesis using False Some by (auto simp: reduceStep_Some)
  qed
qed

lemma foldl_reduceStep_labels:
  "qualityLabel ` set (foldl reduceStep acc gs) = qualityLabel ` set acc \<union> qualityLabel ` set gs"
  by (induction gs arbitrary: acc) (auto simp: reduceStep_labels)

lemma find_unique_label:
  assumes "distinct (map qualityLabel acc)" "v \<in> set acc"
  shows "find (\<lambda>g. qualityLabel g = qualityLabel v) acc = Some v"
  using assms
proof (induction acc)
  case Nil
  then show ?case by simp
next
  case (Cons a acc)
  then show ?case by (auto simp: image_iff)
qed

lemma find_append_Some: "find P xs = Some v \<Longrightarrow> find P (xs @ ys) = Some v"
  by (induction xs) (auto split: if_splits)

lemma find_append_None: "\<forall>x\<in>set xs. \<not> P x \<Longrightarrow> find P (xs @ ys) = find P ys"
  by (induction xs) auto

lemma kept_is_best:
  assumes "v \<in> set (foldl reduceStep [] gs)"
    and "\<forall>g\<in>set gs. qualityLabel g = qualityLabel v \<longrightarrow> bitrate g \<noteq> None"
  shows "(\<forall>g\<in>set gs. qualityLabel g = qualityLabel v \<longrightarrow> videoRate g \<le> videoRate v) \<and>
         find (\<lambda>g. qualityLabel g = qualityLabel v \<and> videoRate g = videoRate v) gs = Some v"
  using assms
proof (induction gs arbitrary: v rule: rev_induct)
  case Nil
  then show ?case by simp
next
  case (snoc g gs)
  let ?acc = "foldl reduceStep [] gs"
  let ?P = "\<lambda>v g. qualityLabel g = qualityLabel v \<and> videoRate g = videoRate v"
  have d: "distinct (map qualityLabel ?acc)"
    using foldl_reduceStep_distinct [of "[]" gs] by simp
  have sub: "set ?acc \<subseteq> set gs"
    using foldl_reduceStep_set [of "[]" gs] by simp
  have v': "v \<in> set (reduceStep ?acc g)" using snoc.prems(1) by simp
  have def: "\<forall>h\<in>set gs. qualityLabel h = qualityLabel v \<longrightarrow> bitrate h \<noteq> None"
    using snoc.prems(2) by simp
  show ?case
  proof (cases "qualityLabel v = qualityLabel g")
    case False
    then have "v \<in> set ?acc" using v' reduceStep_set [of ?acc g] by auto
    then have ih: "(\<forall>h\<in>set gs. qualityLabel h = qualityLabel v \<longrightarrow> videoRate h \<le> videoRate v) \<and>
        find (?P v) gs = Some v"
      using snoc.IH def by blast
    then show ?thesis using False by (simp add: find_append_Some)
  next
    case True
    show ?thesis
    proof (cases "find (\<lambda>h. qualityLabel h = qualityLabel g) ?acc")
      case None
      then have no: "\<forall>h\<in>set ?acc. qualityLabel h \<noteq> qualityLabel g"
        by (auto simp: find_None_iff)
      then have vg: "v = g" using v' True None by (auto simp: reduceStep_None)
      have "qualityLabel g \<notin> qualityLabel ` set ?acc"
        using no by (auto simp: image_iff)
      then have "qualityLabel g \<notin> qualityLabel ` set gs"
        using foldl_reduceStep_labels [of "[]" gs] by simp
      then have "\<forall>h\<in>set gs. qualityLabel h \<noteq> qualityLabel g"
        by (metis imageI)
      then show ?thesis using vg by (simp add: find_append_None)
    next
      case (Some e)
      then have e: "e \<in> set ?acc" "qualityLabel e = qualityLabel g"
        by (auto simp: find_Some_iff)
      then have eg: "e \<in> set gs" using sub by auto
      have "\<forall>h\<in>set gs. qualityLabel h = qualityLabel e \<longrightarrow> bitrate h \<noteq> None"
        using def True e by simp
      then have ih: "\<forall>h\<in>set gs. qualityLabel h = qualityLabel e \<longrightarrow> videoRate h \<le> videoRate e"
        "find (?P e) gs = Some e"
        using snoc.IH [of e] e by blast+
      obtain x y where xy: "bitrate g = Some x" "bitrate e = Some y"
        using snoc.prems(2) True e eg by auto
      show ?thesis
      proof (cases "bitrateGreater (bitrate g) (bitrate e)")
        case gt: True
        then have "reduceStep ?acc g = filter (\<lambda>h. qualityLabel h \<noteq> qualityLabel g) ?acc @ [g]"
          using Some by (simp add: reduceStep_Some)
        then have vg: "v = g" using v' True by auto
        have lt: "videoRate e < videoRate g"
          using gt xy by (simp add: bitrateGreater_def videoRate_def)
        then have less: "\<forall>h\<in>set gs. qualityLabel h = qualityLabel g \<longrightarrow> videoRate h < videoRate g"
          using ih(1) e by fastforce
        then have "\<forall>h\<in>set gs. \<not> (qualityLabel h = qualityLabel g \<and> videoRate h = videoRate g)"
          by fastforce
        then have "find (\<lambda>h. qualityLabel h = qualityLabel g \<and> videoRate h = videoRate g) (gs @ [g]) =
            Some g"
          by (simp add: find_append_None)
        then show ?thesis using vg less by (simp add: less_imp_le)
      next
        case ngt: False
        then have "reduceStep ?acc g = ?acc" using Some by (simp add: reduceStep_Some)
        then have "v \<in> set ?acc" using v' by simp
        then have "find (\<lambda>h. qualityLabel h = qualityLabel v) ?acc = Some v"
          using d by (rule find_unique_label [rotated])
        then have ve: "v = e" using Some True by simp
        have "videoRate g \<le> videoRate e"
          using ngt xy by (auto simp: bitrateGreater_def videoRate_def)
        then show ?thesis using ve ih e by (simp add: find_append_Some)
      qed
    qed
  qed
qed

lemma videoOnlyFormats_best:
  assumes "v \<in> set (videoOnlyFormats fs)"
    and "\<forall>g\<in>set fs. isVideoOnly g \<and> qualityLabel g = qualityLabel v \<longrightarrow> bitrate g \<noteq> None"
  shows "\<forall>g\<in>set fs. isVideoOnly g \<and> qualityLabel g = qualityLabel v \<longrightarrow> videoRate g \<le> videoRate v"
    "find (\<lambda>g. isVideoOnly g \<and> qualityLabel g = qualityLabel v \<and> videoRate g = videoRate v) fs = Some v"
proof -
  note k = kept_is_best [of v "filter isVideoOnly fs"]
  have a: "v \<in> set (foldl reduceStep [] (filter isVideoOnly fs))"
    using assms(1) by (simp add: videoOnlyFormats_def)
  have b: "\<forall>g\<in>set (filter isVideoOnly fs). qualityLabel g = qualityLabel v \<longrightarrow> bitrate g \<noteq> None"
    using assms(2) by simp
  show "\<forall>g\<in>set fs. isVideoOnly g \<and> qualityLabel g = qualityLabel v \<longrightarrow> videoRate g \<le> videoRate v"
    using k [OF a b] by simp
  show "find (\<lambda>g. isVideoOnly g \<and> qualityLabel g = qualityLabel v \<and> videoRate g = videoRate v) fs = Some v"
    using k [OF a b] by (simp add: find_filter_conj)
qed

lemma videoOnlyFormats_covers:
  "g \<in> set fs \<Longrightarrow> isVideoOnly g \<Longrightarrow> \<exists>v\<in>set (videoOnlyFormats fs). qualityLabel v = qualityLabel g"
proof -
  assume "g \<in> set fs" "isVideoOnly g"
  then have "qualityLabel g \<in> qualityLabel ` set (filter isVideoOnly fs)" by simp
  then have "qualityLabel g \<in> qualityLabel ` set (videoOnlyFormats fs)"
    using foldl_reduceStep_labels [of "[]" "filter isVideoOnly fs"] by (simp add: videoOnlyFormats_def)
  then show ?thesis by force
qed

text \<open>
  C5. The reduction never replaces a kept candidate whose bitrate is undefined: of two
  video-only \<open>mp4\<close> renditions with the same quality label, the first without a bitrate
  and the second with one, the candidate set keeps the first; in the opposite order it
  keeps the one with the bitrate. So the kept entry is not always the one with the
  highest bitrate.
\<close>

theorem C5_undefined_bitrate_is_never_replaced:
  "isVideoOnly exNoBitrate1080 \<and> isVideoOnly exVideo1080 \<and>
   qualityLabel exNoBitrate1080 = qualityLabel exVideo1080 \<and>
   bitrate exNoBitrate1080 = None \<and> bitrate exVideo1080 = Some 4000000 \<and>
   videoOnlyFormats [exNoBitrate1080, exVideo1080] = [exNoBitrate1080] \<and>
   videoOnlyFormats [exVideo1080, exNoBitrate1080] = [exVideo1080]"
  by (simp add: videoOnlyFormats_def reduceStep_def bitrateGreater_def isVideoOnly_def truthy_def
      exNoBitrate1080_def exVideo1080_def)

end
